theory Spec2Isabelle
  imports Main
begin

section \<open>Data model of a match (models/match.model.js)\<close>

text \<open>
  Sides, player team tags and phases are the string enums of the Mongoose schema.
  Dates are milliseconds since the epoch, a \<open>nat\<close>; every \<open>new Date()\<close> of the
  source is the explicit argument \<open>now\<close>. A thrown \<open>Error\<close> is the \<open>Inl\<close> of
  the result.
\<close>

datatype side = Alpha | Beta

datatype team = OnTeam side | Undrafted

datatype phase = Accept | Draft | Veto | Ready | Live | Complete | Cancelled

datatype error =
    NotCaptainsTurn
  | PlayerNotFoundOrDrafted
  | MapNotAvailable
  | AcceptPhaseNotActive
  | AcceptPhaseExpired
  | PlayerNotPartOfMatch
  | PlayerAlreadyAccepted
  | PlayerAlreadyInQueue
  | QueueIsFull
  | PlayerNotFoundInQueue
  | PlayerNotInQueue
  | PlayerAlreadyDeclined
  | ValidationError
  | ValidWinnerRequired
  | MapNameRequired

record playerRef =
  steamId :: string
  name :: string
  avatar :: string

record player = playerRef +
  team :: team

record pickEntry =
  pick_captain :: side
  pick_steamId :: string
  pickedAt :: nat

record banEntry =
  ban_map :: string
  bannedBy :: side
  bannedAt :: nat

record acceptedEntry =
  acc_steamId :: string
  acceptedAt :: nat

record requiredEntry =
  req_steamId :: string
  req_name :: string

record matchAcceptPhase =
  active :: bool
  startedAt :: nat
  expiresAt :: nat
  timeout :: nat
  acceptedPlayers :: "acceptedEntry list"
  requiredPlayers :: "requiredEntry list"

record serverInfoT =
  ip :: "string option"
  password :: "string option"
  rcon :: "string option"
  serverId :: "string option"
  connectString :: "string option"

record match =
  matchId :: string
  players :: "player list"
  captains_alpha :: string
  captains_beta :: string
  teams_alpha :: "string list"
  teams_beta :: "string list"
  phase :: phase
  acceptPhase :: matchAcceptPhase
  pickOrder :: "side list"
  currentPicker :: side
  pickIndex :: nat
  pickHistory :: "pickEntry list"
  availableMaps :: "string list"
  bannedMaps :: "banEntry list"
  selectedMap :: "string option"
  vetoOrder :: "side list"
  currentVeto :: side
  vetoIndex :: nat
  serverInfo :: serverInfoT
  result_winner :: "string option"
  result_score :: "nat \<times> nat"
  vetoStartedAt :: "nat option"
  readyStartedAt :: "nat option"
  completedAt :: "nat option"

definition defaultMaps :: "string list" where
  "defaultMaps = [''Dust II'', ''Mirage'', ''Inferno'', ''Nuke'', ''Overpass'', ''Vertigo'',
     ''Ancient'', ''Cache'', ''Cobblestone'', ''Anubis'', ''Train'', ''Aztec'']"

definition noServerInfo :: serverInfoT where
  "noServerInfo = \<lparr>ip = None, password = None, rcon = None, serverId = None,
     connectString = None\<rparr>"

subsection \<open>Array helpers\<close>

text \<open>
  \<open>players.find(pred)\<close> returns a reference to the first matching element, which the
  caller then mutates in place: \<open>List.find\<close> reads it, \<open>update_first\<close> writes it.
\<close>

fun update_first :: "('a \<Rightarrow> bool) \<Rightarrow> ('a \<Rightarrow> 'a) \<Rightarrow> 'a list \<Rightarrow> 'a list" where
  "update_first P f [] = []"
| "update_first P f (x # xs) = (if P x then f x # xs else x # update_first P f xs)"

text \<open>The loop \<open>for (i = 0; i < totalBans; i++) push(i % 2 === 0 ? 'alpha' : 'beta')\<close>.\<close>

definition alternating :: "nat \<Rightarrow> side list" where
  "alternating totalBans = map (\<lambda>i. if i mod 2 = 0 then Alpha else Beta) [0..<totalBans]"

subsection \<open>Methods and statics of the match schema\<close>

definition generatePickOrder :: "match \<Rightarrow> match" where
  "generatePickOrder m =
     m\<lparr>pickOrder := [Alpha, Alpha, Beta, Beta, Alpha, Beta, Alpha, Beta],
       currentPicker := Alpha,
       pickIndex := 0\<rparr>"

text \<open>
  \<open>availableMaps.length - 1\<close> is \<open>-1\<close> for an empty pool, and the loop then does not
  run: the truncating subtraction of \<open>nat\<close> gives the same empty order.
\<close>

definition generateVetoOrder :: "nat \<Rightarrow> match \<Rightarrow> match" where
  "generateVetoOrder now m =
     m\<lparr>vetoOrder := alternating (length (availableMaps m) - 1),
       currentVeto := Alpha,
       vetoIndex := 0,
       vetoStartedAt := Some now\<rparr>"

definition teamPush :: "side \<Rightarrow> string \<Rightarrow> match \<Rightarrow> match" where
  "teamPush s sid m =
     (case s of Alpha \<Rightarrow> m\<lparr>teams_alpha := teams_alpha m @ [sid]\<rparr>
              | Beta \<Rightarrow> m\<lparr>teams_beta := teams_beta m @ [sid]\<rparr>)"

definition teamOf :: "side \<Rightarrow> match \<Rightarrow> string list" where
  "teamOf s m = (case s of Alpha \<Rightarrow> teams_alpha m | Beta \<Rightarrow> teams_beta m)"

text \<open>The straight-line part of \<open>pickPlayer\<close> after both checks have passed.\<close>

definition applyPick :: "string \<Rightarrow> side \<Rightarrow> nat \<Rightarrow> match \<Rightarrow> match" where
  "applyPick sid captain now m =
     (teamPush captain sid m)
       \<lparr>players := update_first (\<lambda>p. steamId p = sid \<and> team p = Undrafted)
                     (\<lambda>p. p\<lparr>team := OnTeam captain\<rparr>) (players m),
        pickHistory := pickHistory m @
           [\<lparr>pick_captain = captain, pick_steamId = sid, pickedAt = now\<rparr>],
        pickIndex := pickIndex m + 1\<rparr>"

text \<open>The \<open>else\<close> branch of \<open>pickPlayer\<close>: the draft is complete.\<close>

definition assignLastPlayer :: "match \<Rightarrow> match" where
  "assignLastPlayer m =
     (case find (\<lambda>p. team p = Undrafted) (players m) of
        None \<Rightarrow> m
      | Some lastPlayer \<Rightarrow>
          (let t = (if length (teams_alpha m) < length (teams_beta m) then Alpha else Beta)
           in (teamPush t (steamId lastPlayer) m)
                \<lparr>players := update_first (\<lambda>p. team p = Undrafted)
                              (\<lambda>p. p\<lparr>team := OnTeam t\<rparr>) (players m)\<rparr>))"

definition startVeto :: "nat \<Rightarrow> match \<Rightarrow> match" where
  "startVeto now m =
     m\<lparr>phase := Veto,
       vetoStartedAt := Some now,
       vetoOrder := alternating (length (availableMaps m) - 1),
       currentVeto := Alpha,
       vetoIndex := 0\<rparr>"

definition pickPlayer :: "string \<Rightarrow> side \<Rightarrow> nat \<Rightarrow> match \<Rightarrow> error + match" where
  "pickPlayer sid captain now m =
     (if currentPicker m \<noteq> captain then Inl NotCaptainsTurn
      else case find (\<lambda>p. steamId p = sid \<and> team p = Undrafted) (players m) of
        None \<Rightarrow> Inl PlayerNotFoundOrDrafted
      | Some _ \<Rightarrow>
          (let m1 = applyPick sid captain now m
           in if pickIndex m1 < length (pickOrder m1)
              then Inr (m1\<lparr>currentPicker := pickOrder m1 ! pickIndex m1\<rparr>)
              else Inr (startVeto now (assignLastPlayer m1))))"

definition banMap :: "string \<Rightarrow> side \<Rightarrow> nat \<Rightarrow> match \<Rightarrow> error + match" where
  "banMap mapName captain now m =
     (if currentVeto m \<noteq> captain then Inl NotCaptainsTurn
      else if mapName \<notin> set (availableMaps m) then Inl MapNotAvailable
      else
        (let m1 = m\<lparr>availableMaps := filter (\<lambda>x. x \<noteq> mapName) (availableMaps m),
                    bannedMaps := bannedMaps m @
                      [\<lparr>ban_map = mapName, bannedBy = captain, bannedAt = now\<rparr>]\<rparr>
         in if length (availableMaps m1) = 1
            then Inr (m1\<lparr>selectedMap := Some (hd (availableMaps m1)),
                         phase := Ready,
                         readyStartedAt := Some now\<rparr>)
            else Inr (m1\<lparr>vetoIndex := vetoIndex m1 + 1,
                         currentVeto := (if currentVeto m1 = Alpha then Beta else Alpha)\<rparr>)))"

definition acceptMatch :: "string \<Rightarrow> nat \<Rightarrow> match \<Rightarrow> error + match" where
  "acceptMatch sid now m =
     (if \<not> active (acceptPhase m) then Inl AcceptPhaseNotActive
      else if now > expiresAt (acceptPhase m) then Inl AcceptPhaseExpired
      else if \<not> list_ex (\<lambda>p. req_steamId p = sid) (requiredPlayers (acceptPhase m))
        then Inl PlayerNotPartOfMatch
      else if list_ex (\<lambda>p. acc_steamId p = sid) (acceptedPlayers (acceptPhase m))
        then Inl PlayerAlreadyAccepted
      else Inr (m\<lparr>acceptPhase := (acceptPhase m)
                  \<lparr>acceptedPlayers := acceptedPlayers (acceptPhase m) @
                     [\<lparr>acc_steamId = sid, acceptedAt = now\<rparr>]\<rparr>\<rparr>))"

definition allPlayersAccepted :: "match \<Rightarrow> bool" where
  "allPlayersAccepted m \<longleftrightarrow>
     length (acceptedPlayers (acceptPhase m)) \<ge> length (requiredPlayers (acceptPhase m))"

definition endAcceptPhase :: "match \<Rightarrow> match" where
  "endAcceptPhase m =
     (let m1 = m\<lparr>acceptPhase := (acceptPhase m)\<lparr>active := False\<rparr>\<rparr>
      in if allPlayersAccepted m1 then m1\<lparr>phase := Draft\<rparr> else m1\<lparr>phase := Cancelled\<rparr>)"

text \<open>
  \<open>Match.createMatch(players, captains)\<close>: every caller passes the two-element array
  \<open>[captainAlpha, captainBeta]\<close>, here the two arguments \<open>c0\<close> and \<open>c1\<close>. The generated
  \<open>matchId\<close> is the argument \<open>mid\<close>.
\<close>

definition createMatch :: "string \<Rightarrow> nat \<Rightarrow> playerRef list \<Rightarrow> string \<Rightarrow> string \<Rightarrow> match" where
  "createMatch mid now ps c0 c1 =
     generatePickOrder
       \<lparr>matchId = mid,
        players = map (\<lambda>p. \<lparr>steamId = steamId p, name = name p, avatar = avatar p,
                      team = (if steamId p = c0 \<or> steamId p = c1
                              then (if steamId p = c0 then OnTeam Alpha else OnTeam Beta)
                              else Undrafted)\<rparr>) ps,
        captains_alpha = c0,
        captains_beta = c1,
        teams_alpha = [c0],
        teams_beta = [c1],
        phase = Accept,
        acceptPhase = \<lparr>active = True, startedAt = now, expiresAt = now + 60000,
                       timeout = 60000, acceptedPlayers = [],
                       requiredPlayers =
                         map (\<lambda>p. \<lparr>req_steamId = steamId p, req_name = name p\<rparr>) ps\<rparr>,
        pickOrder = [],
        currentPicker = Alpha,
        pickIndex = 0,
        pickHistory = [],
        availableMaps = defaultMaps,
        bannedMaps = [],
        selectedMap = None,
        vetoOrder = [],
        currentVeto = Alpha,
        vetoIndex = 0,
        serverInfo = noServerInfo,
        result_winner = None,
        result_score = (0, 0),
        vetoStartedAt = None,
        readyStartedAt = None,
        completedAt = None\<rparr>"

text \<open>
  The model method \<open>completeMatch(winner, score)\<close>. The path \<open>result.winner\<close> has
  the schema enum \<open>['alpha', 'beta', 'draw', null]\<close>, which \<open>save()\<close> validates: a
  truthy winner outside the enum makes \<open>save()\<close> reject and nothing is stored.
\<close>

definition winnerEnum :: "string list" where
  "winnerEnum = [''alpha'', ''beta'', ''draw'']"

definition completeMatch :: "string \<Rightarrow> nat \<times> nat \<Rightarrow> nat \<Rightarrow> match \<Rightarrow> error + match" where
  "completeMatch winner score now m =
     (let m1 = m\<lparr>phase := Complete, completedAt := Some now\<rparr>;
          m2 = (if winner \<noteq> [] then m1\<lparr>result_winner := Some winner\<rparr> else m1);
          m3 = m2\<lparr>result_score := score\<rparr>
      in if winner \<noteq> [] \<and> winner \<notin> set winnerEnum then Inl ValidationError
         else Inr m3)"

definition cancelMatch :: "nat \<Rightarrow> match \<Rightarrow> match" where
  "cancelMatch now m = m\<lparr>phase := Cancelled, completedAt := Some now\<rparr>"

subsection \<open>The ban handler of the match controller and server provisioning\<close>

text \<open>
  \<open>provisionServer(match)\<close> is an external collaborator. Its promise settles in one of
  three ways, which is all the handler looks at: resolved with \<open>success: true\<close> and a
  \<open>serverInfo\<close>, resolved with \<open>success: false\<close> and an error text, or rejected.
\<close>

record provisionedInfo =
  prov_ip :: string
  prov_port :: string
  prov_password :: string
  prov_serverId :: string
  prov_connectString :: string

datatype provisionOutcome =
    ProvisionSuccess provisionedInfo
  | ProvisionFailure string
  | ProvisionThrown string

text \<open>
  The \<open>.then\<close>/\<open>.catch\<close> continuation of \<open>provisionServer(match)\<close>. The schema of
  \<open>serverInfo\<close> has no \<open>port\<close> path, so the assigned \<open>port\<close> is not stored, and
  the assigned object carries no \<open>rcon\<close>.
\<close>

definition provisionSettled :: "provisionOutcome \<Rightarrow> match \<Rightarrow> match" where
  "provisionSettled outcome m =
     (case outcome of
        ProvisionSuccess si \<Rightarrow>
          m\<lparr>serverInfo := \<lparr>ip = Some (prov_ip si), password = Some (prov_password si),
                          rcon = None, serverId = Some (prov_serverId si),
                          connectString = Some (prov_connectString si)\<rparr>,
            phase := Live\<rparr>
      | ProvisionFailure _ \<Rightarrow> m\<lparr>phase := Live\<rparr>
      | ProvisionThrown _ \<Rightarrow> m\<lparr>phase := Live\<rparr>)"

text \<open>
  The handler \<open>banMap\<close> of the match controller up to its HTTP response; the match it
  returns is the one the response reports (phase \<open>ready\<close> when the veto has just ended).
\<close>

definition banMap_controller :: "string \<Rightarrow> side \<Rightarrow> nat \<Rightarrow> match \<Rightarrow> error + match" where
  "banMap_controller mapName captainTeam now m =
     (if mapName = [] then Inl MapNameRequired
      else if mapName \<notin> set (availableMaps m) then Inl MapNotAvailable
      else banMap mapName captainTeam now m)"

text \<open>
  The handler together with the continuation it starts when the phase has become
  \<open>ready\<close>: the state of the match once the provisioning promise has settled.
\<close>

definition banMap_then_provision ::
    "string \<Rightarrow> side \<Rightarrow> nat \<Rightarrow> provisionOutcome \<Rightarrow> match \<Rightarrow> error + match" where
  "banMap_then_provision mapName captainTeam now outcome m =
     (case banMap_controller mapName captainTeam now m of
        Inl e \<Rightarrow> Inl e
      | Inr m1 \<Rightarrow> if phase m1 = Ready then Inr (provisionSettled outcome m1) else Inr m1)"

text \<open>
  The ban route is \<open>requirePhase('veto'), verifyCaptain, verifyTurn, banMap\<close>: a request
  that a middleware rejects, or whose handler throws, leaves the stored match as it was.
  \<open>verifyCaptain\<close> lets only the two captains through and names the side of the
  requester, which is the argument \<open>captainTeam\<close>.
\<close>

datatype routeError = PhaseRequired phase | NotYourTurn | HandlerError error

definition banRoute :: "string \<Rightarrow> side \<Rightarrow> nat \<Rightarrow> match \<Rightarrow> routeError + match" where
  "banRoute mapName captainTeam now m =
     (if phase m \<noteq> Veto then Inl (PhaseRequired Veto)
      else if currentVeto m \<noteq> captainTeam then Inl NotYourTurn
      else case banMap_controller mapName captainTeam now m of
             Inl e \<Rightarrow> Inl (HandlerError e)
           | Inr m1 \<Rightarrow> Inr m1)"

text \<open>A sequence of ban requests \<open>(mapName, captainTeam, now)\<close> against one match.\<close>

fun banRequests :: "match \<Rightarrow> (string \<times> side \<times> nat) list \<Rightarrow> match" where
  "banRequests m [] = m"
| "banRequests m ((mapName, captainTeam, now) # rs) =
     (case banRoute mapName captainTeam now m of
        Inl _ \<Rightarrow> banRequests m rs
      | Inr m1 \<Rightarrow> banRequests m1 rs)"

subsection \<open>Sequences of operations on one match\<close>

text \<open>
  The operations that write a match document. One that throws has not yet mutated the
  document, so the match stays as it was.
\<close>

datatype matchOp =
    AcceptOp string nat
  | EndAcceptOp
  | PickOp string side nat
  | BanOp string side nat
  | ProvisionOp provisionOutcome
  | CompleteOp string "nat \<times> nat" nat
  | CancelOp nat

definition orElse :: "'e + 'a \<Rightarrow> 'a \<Rightarrow> 'a" where
  "orElse r d = (case r of Inl _ \<Rightarrow> d | Inr x \<Rightarrow> x)"

fun matchStep :: "match \<Rightarrow> matchOp \<Rightarrow> match" where
  "matchStep m (AcceptOp sid now) = orElse (acceptMatch sid now m) m"
| "matchStep m EndAcceptOp = endAcceptPhase m"
| "matchStep m (PickOp sid captain now) = orElse (pickPlayer sid captain now m) m"
| "matchStep m (BanOp mapName captain now) = orElse (banMap mapName captain now m) m"
| "matchStep m (ProvisionOp outcome) = provisionSettled outcome m"
| "matchStep m (CompleteOp winner score now) = orElse (completeMatch winner score now m) m"
| "matchStep m (CancelOp now) = cancelMatch now m"

definition runMatch :: "match \<Rightarrow> matchOp list \<Rightarrow> match" where
  "runMatch m ops = foldl matchStep m ops"

subsection \<open>Invariant of the draft and example matches\<close>

text \<open>A player entry that carries a captain's steamId is not in the undrafted pool.\<close>

definition captainTagged :: "string \<Rightarrow> string \<Rightarrow> player \<Rightarrow> bool" where
  "captainTagged a b p \<longleftrightarrow> (steamId p = a \<or> steamId p = b \<longrightarrow> team p \<noteq> Undrafted)"

definition captainsDrafted :: "match \<Rightarrow> bool" where
  "captainsDrafted m \<longleftrightarrow> list_all (captainTagged (captains_alpha m) (captains_beta m)) (players m)"

text \<open>
  A concrete match: ten players \<open>p0\<close> .. \<open>p9\<close> with captains \<open>p0\<close> and \<open>p1\<close>, taken
  through the accept phase into the draft, and then up to the last pick of the draft.
\<close>

definition examplePlayers :: "playerRef list" where
  "examplePlayers = map (\<lambda>s. \<lparr>steamId = s, name = s, avatar = []\<rparr>)
     [''p0'', ''p1'', ''p2'', ''p3'', ''p4'', ''p5'', ''p6'', ''p7'', ''p8'', ''p9'']"

definition exampleMatch :: match where
  "exampleMatch = createMatch ''MATCH-1'' 1000 examplePlayers ''p0'' ''p1''"

definition exampleDraft :: match where
  "exampleDraft =
     runMatch exampleMatch (map (\<lambda>p. AcceptOp (steamId p) 2000) examplePlayers @ [EndAcceptOp])"

definition exampleLastPick :: match where
  "exampleLastPick = runMatch exampleDraft
     [PickOp ''p2'' Alpha 3000, PickOp ''p3'' Alpha 3001, PickOp ''p4'' Beta 3002,
      PickOp ''p5'' Beta 3003, PickOp ''p6'' Alpha 3004, PickOp ''p7'' Beta 3005,
      PickOp ''p8'' Alpha 3006]"

subsection \<open>Counting bans and the invariant of the veto\<close>

text \<open>The number of ban requests of a sequence that succeed.\<close>

fun banSuccesses :: "match \<Rightarrow> (string \<times> side \<times> nat) list \<Rightarrow> nat" where
  "banSuccesses m [] = 0"
| "banSuccesses m ((mapName, captainTeam, now) # rs) =
     (case banRoute mapName captainTeam now m of
        Inl _ \<Rightarrow> banSuccesses m rs
      | Inr m1 \<Rightarrow> Suc (banSuccesses m1 rs))"

text \<open>
  What holds of a match between the start of the veto over the map pool \<open>pool\<close> and
  its end: the available maps are the pool without the banned ones, the bans alternate
  from alpha, and the phase is \<open>veto\<close> with at least two maps left or \<open>ready\<close> with
  exactly the selected map left.
\<close>

definition vetoInv :: "string list \<Rightarrow> match \<Rightarrow> bool" where
  "vetoInv pool m \<longleftrightarrow>
     distinct (availableMaps m)
     \<and> length (availableMaps m) + length (bannedMaps m) = length pool
     \<and> filter (\<lambda>x. x \<notin> set (map ban_map (bannedMaps m))) pool = availableMaps m
     \<and> map bannedBy (bannedMaps m) = alternating (length (bannedMaps m))
     \<and> (if phase m = Veto
         then 2 \<le> length (availableMaps m)
              \<and> currentVeto m = (if even (length (bannedMaps m)) then Alpha else Beta)
         else phase m = Ready \<and> selectedMap m = Some (hd (availableMaps m))
              \<and> length (availableMaps m) = 1)"

text \<open>The example match at the start of its veto, after the last pick of the draft.\<close>

definition exampleVeto :: match where
  "exampleVeto = runMatch exampleLastPick [PickOp ''p9'' Beta 3007]"

definition exampleBans :: "(string \<times> side \<times> nat) list" where
  "exampleBans =
     [(''Dust II'', Alpha, 4000), (''Mirage'', Beta, 4001), (''Mirage'', Alpha, 4002),
      (''Inferno'', Beta, 4003), (''Inferno'', Alpha, 4004), (''Nuke'', Beta, 4005),
      (''Overpass'', Alpha, 4006), (''Vertigo'', Beta, 4007), (''Ancient'', Alpha, 4008),
      (''Cache'', Beta, 4009), (''Cobblestone'', Alpha, 4010), (''Anubis'', Beta, 4011),
      (''Train'', Alpha, 4012), (''Aztec'', Beta, 4013)]"

text \<open>The example match just before its last ban, and a provisioned server.\<close>

definition exampleLastBan :: match where
  "exampleLastBan = banRequests exampleVeto (take 12 exampleBans)"

definition exampleServer :: provisionedInfo where
  "exampleServer = \<lparr>prov_ip = ''10.0.0.1'', prov_port = ''27015'', prov_password = [],
     prov_serverId = ''srv1'', prov_connectString = ''connect 10.0.0.1:27015''\<rparr>"

fun isProvisionOp :: "matchOp \<Rightarrow> bool" where
  "isProvisionOp (ProvisionOp _) = True"
| "isProvisionOp _ = False"

section \<open>The queue (models/queue.model.js)\<close>

datatype queueStatus = Waiting | InAcceptPhase | Full | Processing | Completed

record queuePlayer = playerRef +
  joinedAt :: nat
  position :: nat
  hasPriority :: bool

record queueAcceptPhase =
  qa_active :: bool
  qa_startedAt :: "nat option"
  qa_expiresAt :: "nat option"
  qa_acceptedPlayers :: "string list"
  qa_declinedPlayers :: "string list"
  qa_timeout :: nat

record queue =
  q_id :: string
  q_players :: "queuePlayer list"
  q_status :: queueStatus
  q_requiredPlayers :: nat
  q_acceptPhase :: queueAcceptPhase
  q_createdAt :: nat

text \<open>
  \<open>save()\<close> runs the validators of the Mongoose schema on what was modified, and
  rejects without storing when one fails. For the entry that \<open>addPlayer\<close> pushes, the
  validator is the argument \<open>valid\<close> of the model: the results below hold whatever it
  accepts. (The schema requires \<open>steamId\<close>, \<open>name\<close> and \<open>avatar\<close>.)
\<close>

definition addPlayer ::
    "(queuePlayer \<Rightarrow> bool) \<Rightarrow> playerRef \<Rightarrow> nat \<Rightarrow> queue \<Rightarrow> error + queue" where
  "addPlayer valid pl now q =
     (if list_ex (\<lambda>p. steamId p = steamId pl) (q_players q) then Inl PlayerAlreadyInQueue
      else if length (q_players q) \<ge> q_requiredPlayers q then Inl QueueIsFull
      else
        (let entry = \<lparr>steamId = steamId pl, name = name pl, avatar = avatar pl, joinedAt = now,
                       position = length (q_players q) + 1, hasPriority = False\<rparr>;
             q1 = q\<lparr>q_players := q_players q @ [entry]\<rparr>;
             q2 = (if length (q_players q1) = q_requiredPlayers q1 then q1\<lparr>q_status := Full\<rparr>
                   else q1)
         in if valid entry then Inr q2 else Inl ValidationError))"

text \<open>\<open>players.forEach((player, index) => { player.position = index + 1 })\<close>\<close>

fun renumber :: "nat \<Rightarrow> queuePlayer list \<Rightarrow> queuePlayer list" where
  "renumber index [] = []"
| "renumber index (p # ps) = p\<lparr>position := index + 1\<rparr> # renumber (index + 1) ps"

definition recalculatePositions :: "queuePlayer list \<Rightarrow> queuePlayer list" where
  "recalculatePositions ps = renumber 0 ps"

definition removePlayer :: "string \<Rightarrow> queue \<Rightarrow> error + queue" where
  "removePlayer sid q =
     (let kept = filter (\<lambda>p. steamId p \<noteq> sid) (q_players q)
      in if length kept = length (q_players q) then Inl PlayerNotFoundInQueue
         else
           (let q1 = q\<lparr>q_players := recalculatePositions kept\<rparr>
            in Inr (if length (q_players q1) < q_requiredPlayers q1 then q1\<lparr>q_status := Waiting\<rparr>
                    else q1)))"

definition isFull :: "queue \<Rightarrow> bool" where
  "isFull q \<longleftrightarrow> length (q_players q) \<ge> q_requiredPlayers q"

definition startAcceptPhase :: "nat \<Rightarrow> queue \<Rightarrow> queue" where
  "startAcceptPhase now q =
     q\<lparr>q_status := InAcceptPhase,
       q_acceptPhase := (q_acceptPhase q)
         \<lparr>qa_active := True, qa_startedAt := Some now,
          qa_expiresAt := Some (now + qa_timeout (q_acceptPhase q)),
          qa_acceptedPlayers := [], qa_declinedPlayers := []\<rparr>\<rparr>"

text \<open>The method \<open>acceptMatch\<close> of the queue schema.\<close>

definition queue_acceptMatch :: "string \<Rightarrow> queue \<Rightarrow> error + queue" where
  "queue_acceptMatch sid q =
     (if find (\<lambda>p. steamId p = sid) (q_players q) = None then Inl PlayerNotInQueue
      else if \<not> qa_active (q_acceptPhase q) then Inl AcceptPhaseNotActive
      else if sid \<in> set (qa_acceptedPlayers (q_acceptPhase q)) then Inl PlayerAlreadyAccepted
      else if sid \<in> set (qa_declinedPlayers (q_acceptPhase q)) then Inl PlayerAlreadyDeclined
      else Inr (q\<lparr>q_acceptPhase := (q_acceptPhase q)
                  \<lparr>qa_acceptedPlayers := qa_acceptedPlayers (q_acceptPhase q) @ [sid]\<rparr>\<rparr>))"

definition resetAcceptPhase :: "queueAcceptPhase \<Rightarrow> queueAcceptPhase" where
  "resetAcceptPhase a =
     a\<lparr>qa_active := False, qa_startedAt := None, qa_expiresAt := None,
       qa_acceptedPlayers := [], qa_declinedPlayers := []\<rparr>"

definition fullOrWaiting :: "queue \<Rightarrow> queue" where
  "fullOrWaiting q =
     q\<lparr>q_status := (if length (q_players q) \<ge> q_requiredPlayers q then Full else Waiting)\<rparr>"

text \<open>
  The queue side of \<open>processAcceptPhaseResults\<close>: the accepted players stay, marked with
  priority; the steamIds of the others are returned for the \<open>User.updateMany\<close>.
\<close>

definition processAcceptPhaseResults_queue :: "queue \<Rightarrow> queue \<times> string list" where
  "processAcceptPhaseResults_queue q =
     (let acceptedSteamIds = qa_acceptedPlayers (q_acceptPhase q);
          kept = map (\<lambda>p. p\<lparr>hasPriority := True\<rparr>)
                   (filter (\<lambda>p. steamId p \<in> set acceptedSteamIds) (q_players q));
          removedPlayers = map steamId
                   (filter (\<lambda>p. steamId p \<notin> set acceptedSteamIds) (q_players q))
      in (fullOrWaiting
            (q\<lparr>q_players := recalculatePositions kept,
               q_acceptPhase := resetAcceptPhase (q_acceptPhase q)\<rparr>),
          removedPlayers))"

text \<open>
  The queue side of the timeout callback that \<open>startReadyPhaseMatch\<close> registers: the
  acceptors of the ready session that are in the queue come first, in their queue order
  and marked with priority, then the players that were not part of the session.
\<close>

definition rebuildOnReadyTimeout :: "string list \<Rightarrow> string list \<Rightarrow> queue \<Rightarrow> queue" where
  "rebuildOnReadyTimeout acceptors nonAcceptors q =
     (let sessionPlayerIds = acceptors @ nonAcceptors;
          acceptedPlayersInQueue = map (\<lambda>p. p\<lparr>hasPriority := True\<rparr>)
             (filter (\<lambda>p. steamId p \<in> set sessionPlayerIds \<and> steamId p \<in> set acceptors)
                (q_players q));
          nonSessionPlayers = filter (\<lambda>p. steamId p \<notin> set sessionPlayerIds) (q_players q);
          newPlayers = acceptedPlayersInQueue @ nonSessionPlayers
      in fullOrWaiting
           (q\<lparr>q_players := recalculatePositions newPlayers,
              q_acceptPhase := resetAcceptPhase (q_acceptPhase q)\<rparr>))"

text \<open>\<open>Queue.create({ players: [], status: 'waiting' })\<close> with the schema defaults.\<close>

definition newQueue :: "string \<Rightarrow> nat \<Rightarrow> queue" where
  "newQueue qid now =
     \<lparr>q_id = qid, q_players = [], q_status = Waiting, q_requiredPlayers = 10,
      q_acceptPhase = \<lparr>qa_active = False, qa_startedAt = None, qa_expiresAt = None,
                       qa_acceptedPlayers = [], qa_declinedPlayers = [], qa_timeout = 20000\<rparr>,
      q_createdAt = now\<rparr>"

subsection \<open>Sequences of operations on one queue\<close>

datatype queueOp =
    JoinOp playerRef nat
  | LeaveOp string
  | AcceptResultsOp
  | ReadyTimeoutOp "string list" "string list"
  | StartAcceptOp nat
  | QueueAcceptOp string

fun queueStep :: "(queuePlayer \<Rightarrow> bool) \<Rightarrow> queue \<Rightarrow> queueOp \<Rightarrow> queue" where
  "queueStep valid q (JoinOp pl now) = orElse (addPlayer valid pl now q) q"
| "queueStep valid q (LeaveOp sid) = orElse (removePlayer sid q) q"
| "queueStep valid q AcceptResultsOp = fst (processAcceptPhaseResults_queue q)"
| "queueStep valid q (ReadyTimeoutOp acceptors nonAcceptors) =
     rebuildOnReadyTimeout acceptors nonAcceptors q"
| "queueStep valid q (StartAcceptOp now) = startAcceptPhase now q"
| "queueStep valid q (QueueAcceptOp sid) = orElse (queue_acceptMatch sid q) q"

definition runQueue :: "(queuePlayer \<Rightarrow> bool) \<Rightarrow> queue \<Rightarrow> queueOp list \<Rightarrow> queue" where
  "runQueue valid q ops = foldl (queueStep valid) q ops"

definition positionsContiguous :: "queue \<Rightarrow> bool" where
  "positionsContiguous q \<longleftrightarrow>
     map position (q_players q) = map (\<lambda>i. i + 1) [0..<length (q_players q)]"

text \<open>A concrete run of a fresh queue: three joins, a leave, and a timeout rebuild.\<close>

definition exampleRef :: "string \<Rightarrow> playerRef" where
  "exampleRef s = \<lparr>steamId = s, name = s, avatar = ''a.png''\<rparr>"

definition exampleQueueOps :: "queueOp list" where
  "exampleQueueOps =
     [JoinOp (exampleRef ''a'') 10, JoinOp (exampleRef ''b'') 11, JoinOp (exampleRef ''c'') 12,
      JoinOp (exampleRef ''b'') 13, LeaveOp ''a'', JoinOp (exampleRef ''d'') 14,
      ReadyTimeoutOp [''d''] [''b'']]"

section \<open>Users (models/user.model.js)\<close>

text \<open>
  Of a user document, the fields that the modelled operations read or write. The
  collection is a list in storage order. \<open>currentMatch\<close> refers to a match, named here
  by its \<open>matchId\<close>.
\<close>

record userStats =
  matchesPlayed :: nat
  wins :: nat
  losses :: nat
  rating :: int
  captainCount :: nat

record user =
  u_steamId :: string
  u_name :: string
  stats :: userStats
  currentMatch :: "string option"
  inQueue :: bool

definition updateStats :: "bool \<Rightarrow> user \<Rightarrow> user" where
  "updateStats won u =
     (let s1 = (stats u)\<lparr>matchesPlayed := matchesPlayed (stats u) + 1\<rparr>
      in if won
         then u\<lparr>stats := s1\<lparr>wins := wins s1 + 1, rating := rating s1 + 25\<rparr>\<rparr>
         else u\<lparr>stats := s1\<lparr>losses := losses s1 + 1, rating := max 0 (rating s1 - 25)\<rparr>\<rparr>)"

text \<open>\<open>User.updateMany(filter, update)\<close> and \<open>User.updateOne(filter, update)\<close>.\<close>

definition updateMany :: "(user \<Rightarrow> bool) \<Rightarrow> (user \<Rightarrow> user) \<Rightarrow> user list \<Rightarrow> user list" where
  "updateMany P f us = map (\<lambda>u. if P u then f u else u) us"

definition updateOne :: "(user \<Rightarrow> bool) \<Rightarrow> (user \<Rightarrow> user) \<Rightarrow> user list \<Rightarrow> user list" where
  "updateOne P f us = update_first P f us"

section \<open>Ready sessions (models/readySession.model.js and the ready socket module)\<close>

datatype sessionStatus = SessionActive | SessionCompleted | SessionTimeout | SessionCancelled

record readyPlayer =
  userId :: string
  accepted :: bool
  rp_acceptedAt :: "nat option"

record readySession =
  rs_matchId :: string
  queueGroupId :: "string option"
  playerIds :: "string list"
  rs_players :: "readyPlayer list"
  rs_expiresAt :: nat
  rs_status :: sessionStatus
  rs_completedAt :: "nat option"

record sessionStats =
  st_matchId :: string
  totalPlayers :: nat
  acceptedCount :: nat
  pendingCount :: nat
  st_players :: "(string \<times> bool) list"
  secondsRemaining :: nat

datatype sessionError =
    InvalidSession | DuplicateMatchId | SessionNotFoundOrExpired | UserNotInSession

text \<open>
  \<open>Math.max(0, Math.floor((expiresAt - Date.now()) / 1000))\<close>: the truncating
  subtraction and division of \<open>nat\<close> give the same number.
\<close>

definition getSessionStats :: "nat \<Rightarrow> readySession \<Rightarrow> sessionStats" where
  "getSessionStats now s =
     (let n = length (filter accepted (rs_players s))
      in \<lparr>st_matchId = rs_matchId s,
          totalPlayers = length (rs_players s),
          acceptedCount = n,
          pendingCount = length (rs_players s) - n,
          st_players = map (\<lambda>p. (userId p, accepted p)) (rs_players s),
          secondsRemaining = (rs_expiresAt s - now) div 1000\<rparr>)"

text \<open>\<open>ReadySession.findOne({ matchId, status: 'active' })\<close> on the collection.\<close>

definition activeSession :: "string \<Rightarrow> readySession \<Rightarrow> bool" where
  "activeSession mid s \<longleftrightarrow> rs_matchId s = mid \<and> rs_status s = SessionActive"

text \<open>
  \<open>startReadyPhase\<close> stores a new active session; the path \<open>matchId\<close> of the schema is
  \<open>unique\<close>, so storing a second session with a stored \<open>matchId\<close> is rejected.
\<close>

definition startReadyPhase ::
    "string \<Rightarrow> string list \<Rightarrow> string option \<Rightarrow> nat \<Rightarrow> nat \<Rightarrow> readySession list
       \<Rightarrow> sessionError + readySession \<times> readySession list" where
  "startReadyPhase mid pids qgid timeoutSeconds now ss =
     (if mid = [] \<or> length pids \<noteq> 10 then Inl InvalidSession
      else if list_ex (\<lambda>s. rs_matchId s = mid) ss then Inl DuplicateMatchId
      else
        (let s = \<lparr>rs_matchId = mid, queueGroupId = qgid, playerIds = pids,
                   rs_players = map (\<lambda>u. \<lparr>userId = u, accepted = False, rp_acceptedAt = None\<rparr>) pids,
                   rs_expiresAt = now + timeoutSeconds * 1000,
                   rs_status = SessionActive, rs_completedAt = None\<rparr>
         in Inr (s, ss @ [s])))"

text \<open>
  \<open>recordPlayerAccept(matchId, userId)\<close> returns \<open>{ error }\<close> or \<open>{ stats }\<close>; the second
  component is the collection afterwards.
\<close>

definition recordPlayerAccept ::
    "string \<Rightarrow> string \<Rightarrow> nat \<Rightarrow> readySession list
       \<Rightarrow> (sessionError + sessionStats) \<times> readySession list" where
  "recordPlayerAccept mid uid now ss =
     (case find (activeSession mid) ss of
        None \<Rightarrow> (Inl SessionNotFoundOrExpired, ss)
      | Some session \<Rightarrow>
          (case find (\<lambda>p. userId p = uid) (rs_players session) of
             None \<Rightarrow> (Inl UserNotInSession, ss)
           | Some pl \<Rightarrow>
               if accepted pl then (Inr (getSessionStats now session), ss)
               else
                 (let session1 = session\<lparr>rs_players :=
                        update_first (\<lambda>p. userId p = uid)
                          (\<lambda>p. p\<lparr>accepted := True, rp_acceptedAt := Some now\<rparr>)
                          (rs_players session)\<rparr>
                  in (Inr (getSessionStats now session1),
                      update_first (activeSession mid) (\<lambda>_. session1) ss))))"

definition checkAllAccepted :: "string \<Rightarrow> readySession list \<Rightarrow> bool" where
  "checkAllAccepted mid ss =
     (case find (activeSession mid) ss of
        None \<Rightarrow> False
      | Some session \<Rightarrow> list_all accepted (rs_players session))"

text \<open>
  \<open>findOneAndUpdate({ matchId, status: 'active' }, update, { new: true })\<close>: the updated
  session, or \<open>null\<close>, and the collection afterwards.
\<close>

definition findActiveAndUpdate ::
    "string \<Rightarrow> (readySession \<Rightarrow> readySession) \<Rightarrow> readySession list
       \<Rightarrow> readySession option \<times> readySession list" where
  "findActiveAndUpdate mid f ss =
     (case find (activeSession mid) ss of
        None \<Rightarrow> (None, ss)
      | Some session \<Rightarrow> (Some (f session), update_first (activeSession mid) f ss))"

definition completeReadyPhase ::
    "string \<Rightarrow> nat \<Rightarrow> readySession list \<Rightarrow> readySession option \<times> readySession list" where
  "completeReadyPhase mid now ss =
     findActiveAndUpdate mid
       (\<lambda>s. s\<lparr>rs_status := SessionCompleted, rs_completedAt := Some now\<rparr>) ss"

definition cancelReadySession ::
    "string \<Rightarrow> readySession list \<Rightarrow> readySession option \<times> readySession list" where
  "cancelReadySession mid ss =
     findActiveAndUpdate mid (\<lambda>s. s\<lparr>rs_status := SessionCancelled\<rparr>) ss"

record timeoutResult =
  tr_matchId :: string
  tr_queueGroupId :: "string option"
  nonAcceptors :: "string list"
  acceptors :: "string list"

definition handleReadyTimeout ::
    "string \<Rightarrow> readySession list \<Rightarrow> timeoutResult option \<times> readySession list" where
  "handleReadyTimeout mid ss =
     (case findActiveAndUpdate mid (\<lambda>s. s\<lparr>rs_status := SessionTimeout\<rparr>) ss of
        (None, ss1) \<Rightarrow> (None, ss1)
      | (Some session, ss1) \<Rightarrow>
          (Some \<lparr>tr_matchId = mid,
                 tr_queueGroupId = queueGroupId session,
                 nonAcceptors = map userId (filter (\<lambda>p. \<not> accepted p) (rs_players session)),
                 acceptors = map userId (filter accepted (rs_players session))\<rparr>,
           ss1))"

section \<open>The stored collections and the operations across them\<close>

record world =
  w_matches :: "match list"
  w_users :: "user list"
  w_queues :: "queue list"
  w_sessions :: "readySession list"

text \<open>\<open>document.save()\<close> of a document that is already stored replaces it.\<close>

definition saveMatch :: "match \<Rightarrow> match list \<Rightarrow> match list" where
  "saveMatch m ms = update_first (\<lambda>x. matchId x = matchId m) (\<lambda>_. m) ms"

definition saveQueue :: "queue \<Rightarrow> queue list \<Rightarrow> queue list" where
  "saveQueue q qs = update_first (\<lambda>x. q_id x = q_id q) (\<lambda>_. q) qs"

text \<open>
  \<open>Queue.getActiveQueue()\<close>: the oldest queue whose status is \<open>waiting\<close> or \<open>full\<close>, or
  a newly created one, whose id is the argument \<open>newId\<close>.
\<close>

fun oldest :: "queue \<Rightarrow> queue list \<Rightarrow> queue" where
  "oldest q [] = q"
| "oldest q (x # xs) = (if q_createdAt x < q_createdAt q then oldest x xs else oldest q xs)"

definition getActiveQueue :: "string \<Rightarrow> nat \<Rightarrow> queue list \<Rightarrow> queue \<times> queue list" where
  "getActiveQueue newId now qs =
     (case filter (\<lambda>q. q_status q = Waiting \<or> q_status q = Full) qs of
        [] \<Rightarrow> (newQueue newId now, qs @ [newQueue newId now])
      | q # rest \<Rightarrow> (oldest q rest, qs))"

subsection \<open>The accept handler and the timeout of the match-embedded accept phase\<close>

record acceptStatus =
  as_active :: bool
  as_acceptedCount :: nat
  as_requiredCount :: nat
  as_acceptedPlayers :: "string list"
  as_expiresAt :: nat
  timeRemaining :: nat

definition getAcceptStatus :: "nat \<Rightarrow> match \<Rightarrow> acceptStatus" where
  "getAcceptStatus now m =
     \<lparr>as_active = active (acceptPhase m),
      as_acceptedCount = length (acceptedPlayers (acceptPhase m)),
      as_requiredCount = length (requiredPlayers (acceptPhase m)),
      as_acceptedPlayers = map acc_steamId (acceptedPlayers (acceptPhase m)),
      as_expiresAt = expiresAt (acceptPhase m),
      timeRemaining = expiresAt (acceptPhase m) - now\<rparr>"

datatype httpError =
    MatchNotFound
  | NotInAcceptPhase phase
  | AcceptRejected error

text \<open>The handler \<open>acceptMatch\<close> of the match-accept controller.\<close>

definition acceptMatch_controller ::
    "string \<Rightarrow> string \<Rightarrow> nat \<Rightarrow> world \<Rightarrow> (httpError + acceptStatus) \<times> world" where
  "acceptMatch_controller mid sid now w =
     (case find (\<lambda>m. matchId m = mid) (w_matches w) of
        None \<Rightarrow> (Inl MatchNotFound, w)
      | Some m \<Rightarrow>
          if phase m \<noteq> Accept then (Inl (NotInAcceptPhase (phase m)), w)
          else
            (case acceptMatch sid now m of
               Inl e \<Rightarrow> (Inl (AcceptRejected e), w)
             | Inr m1 \<Rightarrow>
                 (let m2 = (if allPlayersAccepted m1 then endAcceptPhase m1 else m1)
                  in (Inr (getAcceptStatus now m1), w\<lparr>w_matches := saveMatch m2 (w_matches w)\<rparr>))))"

text \<open>
  The loop of \<open>processAcceptTimeout\<close> that puts the acceptors back into the queue. The
  call is \<open>queue.addPlayer({ steamId, name, avatar: '' }, true)\<close>; \<open>addPlayer\<close> has the
  single parameter \<open>player\<close>, so the second argument is not read. An error thrown by
  \<open>addPlayer\<close> leaves the loop and the function (the enclosing \<open>try\<close> catches it).
\<close>

fun requeueAcceptors ::
    "(queuePlayer \<Rightarrow> bool) \<Rightarrow> nat \<Rightarrow> requiredEntry list \<Rightarrow> queue \<Rightarrow> user list
       \<Rightarrow> queue \<times> user list" where
  "requeueAcceptors valid now [] queue us = (queue, us)"
| "requeueAcceptors valid now (p # ps) queue us =
     (if list_ex (\<lambda>x. steamId x = req_steamId p) (q_players queue)
      then requeueAcceptors valid now ps queue us
      else
        (case addPlayer valid \<lparr>steamId = req_steamId p, name = req_name p, avatar = []\<rparr> now queue of
           Inl _ \<Rightarrow> (queue, us)
         | Inr queue1 \<Rightarrow>
             requeueAcceptors valid now ps queue1
               (updateOne (\<lambda>u. u_steamId u = req_steamId p)
                  (\<lambda>u. u\<lparr>inQueue := True, currentMatch := None\<rparr>) us)))"

definition processAcceptTimeout ::
    "(queuePlayer \<Rightarrow> bool) \<Rightarrow> string \<Rightarrow> string \<Rightarrow> nat \<Rightarrow> world \<Rightarrow> world" where
  "processAcceptTimeout valid newId mid now w =
     (case find (\<lambda>m. matchId m = mid) (w_matches w) of
        None \<Rightarrow> w
      | Some m \<Rightarrow>
          if \<not> active (acceptPhase m) then w
          else if allPlayersAccepted m
          then w\<lparr>w_matches := saveMatch (endAcceptPhase m) (w_matches w)\<rparr>
          else
            (let acceptedSteamIds = map acc_steamId (acceptedPlayers (acceptPhase m));
                 acceptorList = filter (\<lambda>p. req_steamId p \<in> set acceptedSteamIds)
                                  (requiredPlayers (acceptPhase m));
                 matches1 = saveMatch (endAcceptPhase m) (w_matches w);
                 users1 = updateMany
                            (\<lambda>u. u_steamId u \<in> set (map req_steamId (requiredPlayers (acceptPhase m))))
                            (\<lambda>u. u\<lparr>currentMatch := None\<rparr>) (w_users w);
                 (queue, queues1) = getActiveQueue newId now (w_queues w);
                 (queue2, users2) = requeueAcceptors valid now acceptorList queue users1
             in w\<lparr>w_matches := matches1, w_users := users2,
                  w_queues := saveQueue queue2 queues1\<rparr>))"

subsection \<open>The timeout of a ready session\<close>

text \<open>
  The callback that \<open>startReadyPhaseMatch\<close> passes to \<open>initializeReadyTimeout\<close>. Of the
  de-duplicated session ids only membership and emptiness are used.
\<close>

definition readyTimeoutCallback :: "timeoutResult \<Rightarrow> world \<Rightarrow> world" where
  "readyTimeoutCallback r w =
     (case tr_queueGroupId r of
        None \<Rightarrow> w
      | Some qid \<Rightarrow>
          if qid = [] then w
          else
            (case find (\<lambda>q. q_id q = qid) (w_queues w) of
               None \<Rightarrow> w
             | Some queue \<Rightarrow>
                 (let removedSteamIds = filter (\<lambda>i. i \<notin> set (acceptors r))
                                          (remdups (acceptors r @ nonAcceptors r));
                      users1 = (if removedSteamIds \<noteq> []
                                then updateMany (\<lambda>u. u_steamId u \<in> set removedSteamIds)
                                       (\<lambda>u. u\<lparr>inQueue := False\<rparr>) (w_users w)
                                else w_users w)
                  in w\<lparr>w_users := users1,
                       w_queues := saveQueue
                          (rebuildOnReadyTimeout (acceptors r) (nonAcceptors r) queue)
                          (w_queues w)\<rparr>)))"

text \<open>The body of the timer that \<open>initializeReadyTimeout\<close> sets.\<close>

definition readyTimeoutFired :: "string \<Rightarrow> world \<Rightarrow> world" where
  "readyTimeoutFired mid w =
     (case handleReadyTimeout mid (w_sessions w) of
        (None, ss1) \<Rightarrow> w\<lparr>w_sessions := ss1\<rparr>
      | (Some r, ss1) \<Rightarrow> readyTimeoutCallback r (w\<lparr>w_sessions := ss1\<rparr>))"

subsection \<open>Completing a match (match controller)\<close>

text \<open>
  \<open>match.teams.alpha\<close> and \<open>match.teams.beta\<close> are arrays of steamId strings (schema
  \<open>[{ type: String }]\<close>; \<open>createMatch\<close> and \<open>pickPlayer\<close> store steamIds). The handler
  reads \<open>p.steamId\<close> of each entry, which for a string is \<open>undefined\<close>: \<open>None\<close> here.
\<close>

definition entrySteamId :: "string \<Rightarrow> string option" where
  "entrySteamId p = None"

text \<open>
  \<open>User.findOne({ steamId: key })\<close>. Every user has a steamId (the path is required), so
  a key that is \<open>undefined\<close> names no user. Whether the filter \<open>{ steamId: undefined }\<close>
  reaches the database as a test for \<open>null\<close> (no user is found) or with the key dropped
  (the first stored user is found) is the driver's business: the argument
  \<open>dropsUndefined\<close> chooses.
\<close>

definition findOneBySteamId :: "bool \<Rightarrow> string option \<Rightarrow> user \<Rightarrow> bool" where
  "findOneBySteamId dropsUndefined key u =
     (case key of Some s \<Rightarrow> u_steamId u = s | None \<Rightarrow> dropsUndefined)"

text \<open>
  \<open>for (const player of team) { user = await User.findOne(...); if (user) await
  user.updateStats(won) }\<close>
\<close>

fun updateTeamStats :: "bool \<Rightarrow> bool \<Rightarrow> string list \<Rightarrow> user list \<Rightarrow> user list" where
  "updateTeamStats dropsUndefined won [] us = us"
| "updateTeamStats dropsUndefined won (player # rest) us =
     updateTeamStats dropsUndefined won rest
       (update_first (findOneBySteamId dropsUndefined (entrySteamId player)) (updateStats won) us)"

definition clearAndCount :: "user \<Rightarrow> user" where
  "clearAndCount u =
     u\<lparr>currentMatch := None, stats := (stats u)\<lparr>matchesPlayed := matchesPlayed (stats u) + 1\<rparr>\<rparr>"

definition teamsOf :: "string \<Rightarrow> match \<Rightarrow> string list" where
  "teamsOf w m = (if w = ''alpha'' then teams_alpha m else teams_beta m)"

definition completeMatch_controller ::
    "bool \<Rightarrow> string \<Rightarrow> nat \<Rightarrow> nat \<Rightarrow> nat \<Rightarrow> match \<Rightarrow> user list
       \<Rightarrow> error + match \<times> user list" where
  "completeMatch_controller dropsUndefined winner scoreAlpha scoreBeta now m us =
     (if winner = [] \<or> winner \<notin> set [''alpha'', ''beta'', ''tie''] then Inl ValidWinnerRequired
      else
        (case completeMatch winner (scoreAlpha, scoreBeta) now m of
           Inl e \<Rightarrow> Inl e
         | Inr m1 \<Rightarrow>
             if winner \<noteq> ''tie''
             then
               (let winnerTeam = teamsOf winner m1;
                    loserTeam = teamsOf (if winner = ''alpha'' then ''beta'' else ''alpha'') m1;
                    us1 = updateMany (\<lambda>u. Some (u_steamId u) \<in> set (map entrySteamId winnerTeam))
                            clearAndCount us;
                    us2 = updateTeamStats dropsUndefined True winnerTeam us1;
                    us3 = updateMany (\<lambda>u. Some (u_steamId u) \<in> set (map entrySteamId loserTeam))
                            clearAndCount us2;
                    us4 = updateTeamStats dropsUndefined False loserTeam us3
                in Inr (m1, us4))
             else
               Inr (m1, updateMany (\<lambda>u. u_steamId u \<in> set (map steamId (players m1)))
                          clearAndCount us)))"

section \<open>Example sessions, users and stored collections\<close>

definition exampleIds :: "string list" where
  "exampleIds = [''p0'', ''p1'', ''p2'', ''p3'', ''p4'', ''p5'', ''p6'', ''p7'', ''p8'', ''p9'']"

text \<open>
  A ready session for the ten players, started at time 1000 with a 20 second window
  (so \<open>expiresAt\<close> is 21000), in which \<open>p0\<close> has accepted at time 5000.
\<close>

definition exampleSession :: readySession where
  "exampleSession =
     \<lparr>rs_matchId = ''PEND-1'', queueGroupId = Some ''q1'', playerIds = exampleIds,
      rs_players = \<lparr>userId = ''p0'', accepted = True, rp_acceptedAt = Some 5000\<rparr> #
         map (\<lambda>u. \<lparr>userId = u, accepted = False, rp_acceptedAt = None\<rparr>) (tl exampleIds),
      rs_expiresAt = 21000, rs_status = SessionActive, rs_completedAt = None\<rparr>"

text \<open>The example match in its accept phase (\<open>expiresAt\<close> is 61000) after \<open>p0\<close> accepted.\<close>

definition exampleAccepting :: match where
  "exampleAccepting = runMatch exampleMatch [AcceptOp ''p0'' 2000]"

text \<open>
  Stored collections for the timeout of the example match: seven of the ten players
  (\<open>p0\<close> .. \<open>p6\<close>) accepted, and a player \<open>z\<close> has joined the active queue since the
  match was made. The ten participants point at the match and are not in the queue.
\<close>

definition exampleUser :: "string \<Rightarrow> string option \<Rightarrow> bool \<Rightarrow> user" where
  "exampleUser s cm inq =
     \<lparr>u_steamId = s, u_name = s,
      stats = \<lparr>matchesPlayed = 0, wins = 0, losses = 0, rating = 1000, captainCount = 0\<rparr>,
      currentMatch = cm, inQueue = inq\<rparr>"

definition exampleUsers :: "user list" where
  "exampleUsers = map (\<lambda>s. exampleUser s (Some ''MATCH-1'') False) exampleIds
                    @ [exampleUser ''z'' None True]"

definition exampleTimedOut :: match where
  "exampleTimedOut = runMatch exampleMatch (map (\<lambda>s. AcceptOp s 2000) (take 7 exampleIds))"

definition exampleWaitingQueue :: queue where
  "exampleWaitingQueue =
     orElse (addPlayer (\<lambda>_. True) (exampleRef ''z'') 50000 (newQueue ''q2'' 40000))
       (newQueue ''q2'' 40000)"

definition exampleWorld :: world where
  "exampleWorld =
     \<lparr>w_matches = [exampleTimedOut], w_users = exampleUsers,
      w_queues = [exampleWaitingQueue], w_sessions = [exampleSession]\<rparr>"

text \<open>The same, with nine players accepted and the accept window still open.\<close>

definition exampleWorldNine :: world where
  "exampleWorldNine =
     exampleWorld\<lparr>w_matches :=
       [runMatch exampleMatch (map (\<lambda>s. AcceptOp s 2000) (take 9 exampleIds))]\<rparr>"

text \<open>The validator that the schema's \<open>required\<close> strings amount to.\<close>

definition requiredStrings :: "queuePlayer \<Rightarrow> bool" where
  "requiredStrings p \<longleftrightarrow> steamId p \<noteq> [] \<and> name p \<noteq> [] \<and> avatar p \<noteq> []"

text \<open>
  The example match when it is live: the veto of \<open>exampleBans\<close> has ended and provisioning
  has failed. \<open>statLine\<close> shows what completing a match may change of a user.
\<close>

definition exampleLive :: match where
  "exampleLive = provisionSettled (ProvisionFailure ''no server'') (banRequests exampleVeto exampleBans)"

definition statLine :: "user \<Rightarrow> string \<times> nat \<times> nat \<times> nat \<times> int \<times> string option" where
  "statLine u = (u_steamId u, wins (stats u), losses (stats u), matchesPlayed (stats u),
     rating (stats u), currentMatch u)"

section \<open>Verification\<close>

lemma update_first_all:
  "list_all Q xs \<Longrightarrow> (\<And>x. Q x \<Longrightarrow> Q (f x)) \<Longrightarrow> list_all Q (update_first P f xs)"
  by (induction xs) auto

lemma captainTagged_team: "captainTagged a b p \<Longrightarrow> captainTagged a b (p\<lparr>team := OnTeam t\<rparr>)"
  by (simp add: captainTagged_def)

lemma teamPush_simps [simp]:
  "players (teamPush s sid m) = players m"
  "captains_alpha (teamPush s sid m) = captains_alpha m"
  "captains_beta (teamPush s sid m) = captains_beta m"
  "pickOrder (teamPush s sid m) = pickOrder m"
  "pickIndex (teamPush s sid m) = pickIndex m"
  "pickHistory (teamPush s sid m) = pickHistory m"
  "phase (teamPush s sid m) = phase m"
  "availableMaps (teamPush s sid m) = availableMaps m"
  "currentPicker (teamPush s sid m) = currentPicker m"
  by (simp_all add: teamPush_def split: side.splits)

lemma captainsDrafted_applyPick:
  "captainsDrafted m \<Longrightarrow> captainsDrafted (applyPick sid c now m)"
  unfolding captainsDrafted_def applyPick_def
  by (simp add: update_first_all captainTagged_team)

lemma captainsDrafted_assignLastPlayer:
  "captainsDrafted m \<Longrightarrow> captainsDrafted (assignLastPlayer m)"
  unfolding captainsDrafted_def assignLastPlayer_def
  by (simp add: Let_def update_first_all captainTagged_team split: option.splits)

lemma captainsDrafted_pickPlayer:
  "captainsDrafted m \<Longrightarrow> pickPlayer sid c now m = Inr m' \<Longrightarrow> captainsDrafted m'"
proof -
  assume inv: "captainsDrafted m" and ok: "pickPlayer sid c now m = Inr m'"
  let ?m1 = "applyPick sid c now m"
  have 1: "captainsDrafted ?m1" using inv by (rule captainsDrafted_applyPick)
  have 2: "captainsDrafted (assignLastPlayer ?m1)" using 1 by (rule captainsDrafted_assignLastPlayer)
  from ok have "m' = ?m1\<lparr>currentPicker := pickOrder ?m1 ! pickIndex ?m1\<rparr> \<or> m' = startVeto now (assignLastPlayer ?m1)"
    by (auto simp: pickPlayer_def Let_def split: if_splits option.splits)
  then show ?thesis using 1 2 by (auto simp: captainsDrafted_def startVeto_def)
qed

lemma captainsDrafted_step: "captainsDrafted m \<Longrightarrow> captainsDrafted (matchStep m op)"
proof (cases op)
  case (PickOp sid c now)
  assume "captainsDrafted m"
  then show ?thesis using PickOp captainsDrafted_pickPlayer[of m sid c now]
    by (cases "pickPlayer sid c now m") (auto simp: orElse_def)
qed (auto simp: captainsDrafted_def orElse_def acceptMatch_def endAcceptPhase_def banMap_def Let_def
      provisionSettled_def completeMatch_def cancelMatch_def split: if_splits provisionOutcome.splits)

lemma captainsDrafted_run: "captainsDrafted m \<Longrightarrow> captainsDrafted (runMatch m ops)"
  unfolding runMatch_def by (induction ops arbitrary: m) (auto intro: captainsDrafted_step)

lemma captainsDrafted_createMatch: "captainsDrafted (createMatch mid now ps c0 c1)"
  by (simp add: captainsDrafted_def captainTagged_def createMatch_def generatePickOrder_def list_all_iff)

lemma find_None_captain:
  "captainsDrafted m \<Longrightarrow> sid = captains_alpha m \<or> sid = captains_beta m \<Longrightarrow>
   find (\<lambda>p. steamId p = sid \<and> team p = Undrafted) (players m) = None"
  by (auto simp: captainsDrafted_def captainTagged_def find_None_iff list_all_iff)

lemma pickPlayer_fixed:
  "pickPlayer sid c now m = Inr m' \<Longrightarrow>
     captains_alpha m' = captains_alpha m \<and> captains_beta m' = captains_beta m \<and> pickOrder m' = pickOrder m
     \<and> availableMaps m' = availableMaps m"
  by (auto simp: pickPlayer_def Let_def applyPick_def assignLastPlayer_def startVeto_def
       split: if_splits option.splits)

lemma matchStep_fixed:
  "captains_alpha (matchStep m op) = captains_alpha m \<and> captains_beta (matchStep m op) = captains_beta m
   \<and> pickOrder (matchStep m op) = pickOrder m"
proof (cases op)
  case (PickOp sid c now)
  then show ?thesis using pickPlayer_fixed[of sid c now m]
    by (cases "pickPlayer sid c now m") (auto simp: orElse_def)
qed (auto simp: orElse_def acceptMatch_def endAcceptPhase_def banMap_def Let_def
      provisionSettled_def completeMatch_def cancelMatch_def split: if_splits provisionOutcome.splits)

lemma runMatch_fixed:
  "captains_alpha (runMatch m ops) = captains_alpha m \<and> captains_beta (runMatch m ops) = captains_beta m
   \<and> pickOrder (runMatch m ops) = pickOrder m"
  unfolding runMatch_def by (induction ops arbitrary: m) (simp_all add: matchStep_fixed)

lemmas example_defs = exampleDraft_def exampleMatch_def examplePlayers_def runMatch_def createMatch_def
      generatePickOrder_def orElse_def acceptMatch_def endAcceptPhase_def allPlayersAccepted_def Let_def

lemmas pick_defs = pickPlayer_def applyPick_def assignLastPlayer_def startVeto_def teamPush_def teamOf_def

lemma exampleDraft_eval:
  "phase exampleDraft = Draft" "currentPicker exampleDraft = Alpha" "pickIndex exampleDraft = 0"
  "pickOrder exampleDraft = [Alpha, Alpha, Beta, Beta, Alpha, Beta, Alpha, Beta]"
  "teams_alpha exampleDraft = [''p0'']" "teams_beta exampleDraft = [''p1'']"
  "map (\<lambda>p. (steamId p, team p)) (players exampleDraft) =
     [(''p0'', OnTeam Alpha), (''p1'', OnTeam Beta), (''p2'', Undrafted), (''p3'', Undrafted),
      (''p4'', Undrafted), (''p5'', Undrafted), (''p6'', Undrafted), (''p7'', Undrafted),
      (''p8'', Undrafted), (''p9'', Undrafted)]"
  by (simp_all add: example_defs)


lemma filter_neq_id: "x \<notin> set xs \<Longrightarrow> filter (\<lambda>s. s \<noteq> x) xs = xs"
  by (induction xs) auto

lemma length_filter_neq:
  "distinct xs \<Longrightarrow> x \<in> set xs \<Longrightarrow> Suc (length (filter (\<lambda>s. s \<noteq> x) xs)) = length xs"
  by (induction xs) (auto simp: filter_neq_id)

lemma length_filter_two:
  assumes "distinct xs" "a \<in> set xs" "b \<in> set xs" "a \<noteq> b"
  shows "length (filter (\<lambda>s. s \<noteq> a \<and> s \<noteq> b) xs) = length xs - 2"
proof -
  have e: "filter (\<lambda>s. s \<noteq> a \<and> s \<noteq> b) xs = filter (\<lambda>s. s \<noteq> b) (filter (\<lambda>s. s \<noteq> a) xs)"
    by (simp add: conj_commute)
  have "distinct (filter (\<lambda>s. s \<noteq> a) xs)" using assms by simp
  moreover have "b \<in> set (filter (\<lambda>s. s \<noteq> a) xs)" using assms by simp
  ultimately have "Suc (length (filter (\<lambda>s. s \<noteq> b) (filter (\<lambda>s. s \<noteq> a) xs)))
      = length (filter (\<lambda>s. s \<noteq> a) xs)"
    by (rule length_filter_neq)
  moreover have "Suc (length (filter (\<lambda>s. s \<noteq> a) xs)) = length xs"
    using assms by (simp add: length_filter_neq)
  ultimately show ?thesis unfolding e by arith
qed

lemma createMatch_undrafted:
  "map steamId (filter (\<lambda>p. team p = Undrafted) (players (createMatch mid now ps c0 c1)))
     = filter (\<lambda>s. s \<noteq> c0 \<and> s \<noteq> c1) (map steamId ps)"
  by (induction ps) (auto simp: createMatch_def generatePickOrder_def)

lemma pickPlayer_captain_fails:
  assumes "sid = c0 \<or> sid = c1"
  shows "isl (pickPlayer sid actingSide t (runMatch (createMatch mid now ps c0 c1) ops))"
proof -
  let ?m = "runMatch (createMatch mid now ps c0 c1) ops"
  have "captainsDrafted ?m" by (simp add: captainsDrafted_run captainsDrafted_createMatch)
  moreover have "captains_alpha ?m = c0" "captains_beta ?m = c1"
    by (simp_all add: runMatch_fixed createMatch_def generatePickOrder_def)
  ultimately have "find (\<lambda>p. steamId p = sid \<and> team p = Undrafted) (players ?m) = None"
    using assms find_None_captain[of ?m sid] by auto
  then show ?thesis by (simp add: pickPlayer_def)
qed

text \<open>
  Claim C10. \<open>createMatch\<close> puts each captain on their own side: \<open>teams.alpha\<close> is
  \<open>[captainAlpha]\<close>, \<open>teams.beta\<close> is \<open>[captainBeta]\<close>, the player entries of the
  alpha captain are tagged \<open>alpha\<close> and those of a (different) beta captain \<open>beta\<close>.
  The undrafted pool is the roster without the captains, eight players for a roster of
  ten distinct players with two distinct captains among them. After any sequence of
  operations on the match, \<open>pickPlayer\<close> called with a captain's steamId fails, whoever
  is acting.
\<close>

theorem createMatch_captains_preassigned:
  "teams_alpha (createMatch mid now ps c0 c1) = [c0]
   \<and> teams_beta (createMatch mid now ps c0 c1) = [c1]
   \<and> list_all (\<lambda>p. steamId p = c0 \<longrightarrow> team p = OnTeam Alpha) (players (createMatch mid now ps c0 c1))
   \<and> list_all (\<lambda>p. steamId p = c1 \<and> c1 \<noteq> c0 \<longrightarrow> team p = OnTeam Beta)
        (players (createMatch mid now ps c0 c1))
   \<and> map steamId (filter (\<lambda>p. team p = Undrafted) (players (createMatch mid now ps c0 c1)))
        = filter (\<lambda>s. s \<noteq> c0 \<and> s \<noteq> c1) (map steamId ps)
   \<and> (distinct (map steamId ps) \<and> length ps = 10 \<and> c0 \<in> set (map steamId ps)
        \<and> c1 \<in> set (map steamId ps) \<and> c0 \<noteq> c1 \<longrightarrow>
        length (filter (\<lambda>p. team p = Undrafted) (players (createMatch mid now ps c0 c1))) = 8)
   \<and> isl (pickPlayer c0 actingSide t (runMatch (createMatch mid now ps c0 c1) ops))
   \<and> isl (pickPlayer c1 actingSide t (runMatch (createMatch mid now ps c0 c1) ops))"
proof -
  let ?m0 = "createMatch mid now ps c0 c1"
  have a: "teams_alpha ?m0 = [c0]" "teams_beta ?m0 = [c1]"
    by (simp_all add: createMatch_def generatePickOrder_def)
  have b: "list_all (\<lambda>p. steamId p = c0 \<longrightarrow> team p = OnTeam Alpha) (players ?m0)"
    by (simp add: createMatch_def generatePickOrder_def list_all_iff)
  have c: "list_all (\<lambda>p. steamId p = c1 \<and> c1 \<noteq> c0 \<longrightarrow> team p = OnTeam Beta) (players ?m0)"
    by (auto simp add: createMatch_def generatePickOrder_def list_all_iff)
  have d: "distinct (map steamId ps) \<and> length ps = 10 \<and> c0 \<in> set (map steamId ps)
        \<and> c1 \<in> set (map steamId ps) \<and> c0 \<noteq> c1 \<longrightarrow>
        length (filter (\<lambda>p. team p = Undrafted) (players ?m0)) = 8"
  proof
    assume h: "distinct (map steamId ps) \<and> length ps = 10 \<and> c0 \<in> set (map steamId ps)
        \<and> c1 \<in> set (map steamId ps) \<and> c0 \<noteq> c1"
    have "length (filter (\<lambda>p. team p = Undrafted) (players ?m0))
        = length (map steamId (filter (\<lambda>p. team p = Undrafted) (players ?m0)))" by simp
    also have "\<dots> = length (filter (\<lambda>s. s \<noteq> c0 \<and> s \<noteq> c1) (map steamId ps))"
      by (simp only: createMatch_undrafted)
    also have "\<dots> = length (map steamId ps) - 2" using h by (intro length_filter_two) auto
    finally show "length (filter (\<lambda>p. team p = Undrafted) (players ?m0)) = 8" using h by simp
  qed
  show ?thesis using a b c d createMatch_undrafted[of mid now ps c0 c1]
      pickPlayer_captain_fails[of c0 c0 c1 actingSide t mid now ps ops]
      pickPlayer_captain_fails[of c1 c0 c1 actingSide t mid now ps ops]
    by simp
qed

theorem createMatch_captains_preassigned_witness:
  "distinct (map steamId examplePlayers) \<and> length examplePlayers = 10
   \<and> ''p0'' \<in> set (map steamId examplePlayers) \<and> ''p1'' \<in> set (map steamId examplePlayers)
   \<and> ''p0'' \<noteq> ''p1''
   \<and> length (filter (\<lambda>p. team p = Undrafted) (players exampleMatch)) = 8
   \<and> list_all (\<lambda>p. steamId p = ''p1'' \<longrightarrow> team p = OnTeam Beta) (players exampleMatch)
   \<and> phase exampleDraft = Draft
   \<and> isl (pickPlayer ''p0'' Alpha 3000 exampleDraft) \<and> isl (pickPlayer ''p1'' Alpha 3000 exampleDraft)"
  using createMatch_captains_preassigned[of "''MATCH-1''" 1000 examplePlayers "''p0''" "''p1''" Alpha 3000
     "map (\<lambda>p. AcceptOp (steamId p) 2000) examplePlayers @ [EndAcceptOp]"]
    exampleDraft_eval(1)
  unfolding exampleDraft_def exampleMatch_def
  by (simp add: examplePlayers_def)










lemma alternating_Suc:
  "alternating (Suc n) = alternating n @ [if even n then Alpha else Beta]"
  by (simp add: alternating_def even_iff_mod_2_eq_zero)

lemma banRoute_Ready: "phase m \<noteq> Veto \<Longrightarrow> isl (banRoute mapName c now m)"
  by (simp add: banRoute_def)

lemma banRoute_step:
  assumes inv: "vetoInv pool m" and ok: "banRoute mapName c now m = Inr m1"
  shows "vetoInv pool m1 \<and> length (bannedMaps m1) = Suc (length (bannedMaps m))"
proof -
  from ok have ph: "phase m = Veto" and turn: "currentVeto m = c"
    and mem: "mapName \<in> set (availableMaps m)"
    by (auto simp: banRoute_def banMap_controller_def split: if_splits sum.splits)
  let ?av = "filter (\<lambda>x. x \<noteq> mapName) (availableMaps m)"
  let ?bn = "bannedMaps m @ [\<lparr>ban_map = mapName, bannedBy = c, bannedAt = now\<rparr>]"
  from inv have d: "distinct (availableMaps m)"
    and len: "length (availableMaps m) + length (bannedMaps m) = length pool"
    and av: "filter (\<lambda>x. x \<notin> set (map ban_map (bannedMaps m))) pool = availableMaps m"
    and alt: "map bannedBy (bannedMaps m) = alternating (length (bannedMaps m))"
    and ge2: "2 \<le> length (availableMaps m)"
    and cv: "currentVeto m = (if even (length (bannedMaps m)) then Alpha else Beta)"
    using ph by (simp_all add: vetoInv_def)
  have l1: "Suc (length ?av) = length (availableMaps m)"
    using d mem by (rule length_filter_neq)
  have av': "filter (\<lambda>x. x \<notin> set (map ban_map ?bn)) pool = ?av"
    by (subst av[symmetric]) (auto intro: filter_cong)
  have alt': "map bannedBy ?bn = alternating (length ?bn)"
    using alt cv turn by (simp add: alternating_Suc)
  have m1: "m1 = (if length ?av = 1
       then m\<lparr>availableMaps := ?av, bannedMaps := ?bn, selectedMap := Some (hd ?av), phase := Ready,
               readyStartedAt := Some now\<rparr>
       else m\<lparr>availableMaps := ?av, bannedMaps := ?bn, vetoIndex := vetoIndex m + 1,
               currentVeto := (if currentVeto m = Alpha then Beta else Alpha)\<rparr>)"
    using ok ph turn mem
    by (auto simp: banRoute_def banMap_controller_def banMap_def Let_def split: if_splits sum.splits)
  show ?thesis
  proof (cases "length ?av = 1")
    case True
    then show ?thesis using m1 d len l1 av' alt' ph by (simp add: vetoInv_def)
  next
    case False
    then have "2 \<le> length ?av" using l1 ge2 by arith
    then show ?thesis using False m1 d len l1 av' alt' cv ph
      by (auto simp add: vetoInv_def)
  qed
qed

lemma banRequests_inv:
  "vetoInv pool m \<Longrightarrow>
     vetoInv pool (banRequests m reqs)
     \<and> length (bannedMaps (banRequests m reqs)) = length (bannedMaps m) + banSuccesses m reqs"
proof (induction reqs arbitrary: m)
  case Nil
  then show ?case by simp
next
  case (Cons r rs)
  obtain mapName c now where r: "r = (mapName, c, now)" by (cases r)
  show ?case
  proof (cases "banRoute mapName c now m")
    case (Inl e)
    then show ?thesis using Cons r by simp
  next
    case (Inr m1)
    from banRoute_step[OF Cons.prems Inr]
    have "vetoInv pool m1" and "length (bannedMaps m1) = Suc (length (bannedMaps m))" by simp_all
    then show ?thesis using Cons.IH[of m1] Inr r by simp
  qed
qed

lemma vetoInv_start:
  "phase m = Veto \<Longrightarrow> currentVeto m = Alpha \<Longrightarrow> bannedMaps m = [] \<Longrightarrow>
   distinct (availableMaps m) \<Longrightarrow> 2 \<le> length (availableMaps m) \<Longrightarrow> vetoInv (availableMaps m) m"
  by (simp add: vetoInv_def alternating_def)


lemma banMap_ok:
  assumes "captain = currentVeto m" "mapName \<in> set (availableMaps m)"
  shows "banMap mapName captain now m =
     Inr (if length (filter (\<lambda>x. x \<noteq> mapName) (availableMaps m)) = 1
       then m\<lparr>availableMaps := filter (\<lambda>x. x \<noteq> mapName) (availableMaps m),
              bannedMaps := bannedMaps m @ [\<lparr>ban_map = mapName, bannedBy = captain, bannedAt = now\<rparr>],
              selectedMap := Some (hd (filter (\<lambda>x. x \<noteq> mapName) (availableMaps m))),
              phase := Ready, readyStartedAt := Some now\<rparr>
       else m\<lparr>availableMaps := filter (\<lambda>x. x \<noteq> mapName) (availableMaps m),
              bannedMaps := bannedMaps m @ [\<lparr>ban_map = mapName, bannedBy = captain, bannedAt = now\<rparr>],
              vetoIndex := vetoIndex m + 1,
              currentVeto := (if currentVeto m = Alpha then Beta else Alpha)\<rparr>)"
  using assms by (simp add: banMap_def Let_def)

text \<open>
  Claim C2. Take a match at the start of its veto: phase \<open>veto\<close>, alpha to ban, nothing
  banned yet, and a pool of N distinct maps, N at least 2. Whatever ban requests arrive,
  at most N - 1 of them succeed, the phase is \<open>ready\<close> exactly when N - 1 have
  succeeded and \<open>veto\<close> before that, and the successful bans alternate alpha, beta,
  alpha, ... from the first. The available maps are the pool without the banned maps.
  \<open>banMap\<close> fails when the acting side is not the side whose turn it is or when the
  map is not available. A ban that leaves exactly one map makes that map \<open>selectedMap\<close>
  and moves the phase to \<open>ready\<close>; any other successful ban passes the turn to the
  other side.
\<close>

theorem banMap_veto_protocol:
  assumes "phase m = Veto" and "currentVeto m = Alpha" and "bannedMaps m = []"
    and "distinct (availableMaps m)" and "2 \<le> length (availableMaps m)"
  shows
  "banSuccesses m reqs \<le> length (availableMaps m) - 1
   \<and> (phase (banRequests m reqs) = Ready \<longleftrightarrow> banSuccesses m reqs = length (availableMaps m) - 1)
   \<and> (phase (banRequests m reqs) = Veto \<longleftrightarrow> banSuccesses m reqs < length (availableMaps m) - 1)
   \<and> length (bannedMaps (banRequests m reqs)) = banSuccesses m reqs
   \<and> map bannedBy (bannedMaps (banRequests m reqs)) = alternating (banSuccesses m reqs)
   \<and> (phase (banRequests m reqs) = Veto \<longrightarrow>
        currentVeto (banRequests m reqs) = (if even (banSuccesses m reqs) then Alpha else Beta))
   \<and> availableMaps (banRequests m reqs)
        = filter (\<lambda>x. x \<notin> set (map ban_map (bannedMaps (banRequests m reqs)))) (availableMaps m)
   \<and> length (availableMaps (banRequests m reqs)) = length (availableMaps m) - banSuccesses m reqs
   \<and> (phase (banRequests m reqs) = Ready \<longrightarrow>
        (\<exists>x. availableMaps (banRequests m reqs) = [x] \<and> selectedMap (banRequests m reqs) = Some x))
   \<and> (captain \<noteq> currentVeto (banRequests m reqs) \<longrightarrow>
        banMap mapName captain now (banRequests m reqs) = Inl NotCaptainsTurn)
   \<and> (mapName \<notin> set (availableMaps (banRequests m reqs)) \<longrightarrow>
        banMap mapName captain now (banRequests m reqs)
          = Inl (if captain \<noteq> currentVeto (banRequests m reqs) then NotCaptainsTurn
                 else MapNotAvailable))
   \<and> (phase (banRequests m reqs) = Veto \<and> captain = currentVeto (banRequests m reqs)
        \<and> mapName \<in> set (availableMaps (banRequests m reqs)) \<longrightarrow>
        (\<exists>m1. banMap mapName captain now (banRequests m reqs) = Inr m1
           \<and> availableMaps m1 = filter (\<lambda>x. x \<noteq> mapName) (availableMaps (banRequests m reqs))
           \<and> bannedMaps m1 = bannedMaps (banRequests m reqs) @
                 [\<lparr>ban_map = mapName, bannedBy = captain, bannedAt = now\<rparr>]
           \<and> (length (availableMaps m1) = 1 \<longrightarrow>
                 phase m1 = Ready \<and> selectedMap m1 = Some (hd (availableMaps m1)))
           \<and> (length (availableMaps m1) \<noteq> 1 \<longrightarrow>
                 phase m1 = Veto
                 \<and> currentVeto m1 = (if captain = Alpha then Beta else Alpha))))"
  (is "?A \<and> ?B \<and> ?C \<and> ?D \<and> ?E \<and> ?F \<and> ?G \<and> ?H \<and> ?I \<and> ?J \<and> ?K \<and> (?P \<longrightarrow> ?Q)")
proof -
  let ?m = "banRequests m reqs"
  let ?n = "banSuccesses m reqs"
  have start: "vetoInv (availableMaps m) m" using assms by (rule vetoInv_start)
  from banRequests_inv[OF start, of reqs]
  have inv: "vetoInv (availableMaps m) ?m" and D: ?D using assms(3) by simp_all
  from inv have d: "distinct (availableMaps ?m)"
    and len: "length (availableMaps ?m) + length (bannedMaps ?m) = length (availableMaps m)"
    and G: ?G
    and E0: "map bannedBy (bannedMaps ?m) = alternating (length (bannedMaps ?m))"
    and ph: "if phase ?m = Veto
         then 2 \<le> length (availableMaps ?m)
              \<and> currentVeto ?m = (if even (length (bannedMaps ?m)) then Alpha else Beta)
         else phase ?m = Ready \<and> selectedMap ?m = Some (hd (availableMaps ?m))
              \<and> length (availableMaps ?m) = 1"
    unfolding vetoInv_def by simp_all
  have E: ?E using E0 D by simp
  have H: ?H using len D by arith
  have A: ?A using ph len D by (auto split: if_splits)
  have B: ?B using ph len D by (auto split: if_splits)
  have C: ?C using ph len D by (auto split: if_splits)
  have F: ?F using ph D by (auto split: if_splits)
  have I: ?I
  proof
    assume r: "phase ?m = Ready"
    then have "length (availableMaps ?m) = 1" and s: "selectedMap ?m = Some (hd (availableMaps ?m))"
      using ph by (auto split: if_splits)
    then obtain x where "availableMaps ?m = [x]" by (cases "availableMaps ?m") auto
    then show "\<exists>x. availableMaps ?m = [x] \<and> selectedMap ?m = Some x" using s by simp
  qed
  have J: ?J by (simp add: banMap_def)
  have K: ?K by (simp add: banMap_def)
  have L: "?P \<longrightarrow> ?Q"
  proof (intro impI, elim conjE)
    assume v: "phase ?m = Veto" and t: "captain = currentVeto ?m"
      and mem: "mapName \<in> set (availableMaps ?m)"
    show ?Q
      unfolding banMap_ok[OF t mem, of now]
      using v t by (cases "length (filter (\<lambda>x. x \<noteq> mapName) (availableMaps ?m)) = 1") auto
  qed
  show ?thesis using A B C D E F G H I J K L by blast
qed

lemmas veto_defs = banRoute_def banMap_controller_def banMap_def Let_def

lemma exampleVeto_eval:
  "phase exampleVeto = Veto" "currentVeto exampleVeto = Alpha" "bannedMaps exampleVeto = []"
  "availableMaps exampleVeto = defaultMaps"
  by (simp_all add: exampleVeto_def exampleLastPick_def example_defs pick_defs)

lemma exampleBans_eval:
  "banSuccesses exampleVeto exampleBans = 11"
  "phase (banRequests exampleVeto exampleBans) = Ready"
  "selectedMap (banRequests exampleVeto exampleBans) = Some ''Aztec''"
  "availableMaps (banRequests exampleVeto exampleBans) = [''Aztec'']"
  "map bannedBy (bannedMaps (banRequests exampleVeto exampleBans))
     = [Alpha, Beta, Alpha, Beta, Alpha, Beta, Alpha, Beta, Alpha, Beta, Alpha]"
  by (simp_all add: exampleBans_def exampleVeto_def exampleLastPick_def example_defs pick_defs
        veto_defs defaultMaps_def alternating_def)

theorem banMap_veto_protocol_witness:
  "phase exampleVeto = Veto \<and> currentVeto exampleVeto = Alpha \<and> bannedMaps exampleVeto = []
   \<and> distinct (availableMaps exampleVeto) \<and> 2 \<le> length (availableMaps exampleVeto)
   \<and> length (availableMaps exampleVeto) = 12
   \<and> banSuccesses exampleVeto exampleBans = 11
   \<and> phase (banRequests exampleVeto exampleBans) = Ready
   \<and> selectedMap (banRequests exampleVeto exampleBans) = Some ''Aztec''
   \<and> map bannedBy (bannedMaps (banRequests exampleVeto exampleBans)) = alternating 11
   \<and> Beta \<noteq> currentVeto (banRequests exampleVeto [])
   \<and> banMap ''Nuke'' Beta 4000 (banRequests exampleVeto []) = Inl NotCaptainsTurn
   \<and> ''de_none'' \<notin> set (availableMaps (banRequests exampleVeto []))
   \<and> banMap ''de_none'' Alpha 4000 (banRequests exampleVeto []) = Inl MapNotAvailable
   \<and> (\<exists>m1. banMap ''Nuke'' Alpha 4000 (banRequests exampleVeto []) = Inr m1 \<and> phase m1 = Veto
          \<and> currentVeto m1 = Beta)"
proof -
  have d: "distinct (availableMaps exampleVeto)" and l: "2 \<le> length (availableMaps exampleVeto)"
    and l12: "length (availableMaps exampleVeto) = 12"
    by (simp_all add: exampleVeto_eval defaultMaps_def)
  note a = banMap_veto_protocol[OF exampleVeto_eval(1) exampleVeto_eval(2) exampleVeto_eval(3) d l]
  have nn: "''de_none'' \<notin> set (availableMaps exampleVeto)" "''Nuke'' \<in> set (availableMaps exampleVeto)"
    "length (filter (\<lambda>x. x \<noteq> ''Nuke'') (availableMaps exampleVeto)) \<noteq> 1"
    by (simp_all add: exampleVeto_eval defaultMaps_def)
  have 1: "banMap ''Nuke'' Beta 4000 (banRequests exampleVeto []) = Inl NotCaptainsTurn"
    using a[of "[]" Beta "''Nuke''" 4000] by (simp add: exampleVeto_eval)
  have 2: "banMap ''de_none'' Alpha 4000 (banRequests exampleVeto []) = Inl MapNotAvailable"
    using a[of "[]" Alpha "''de_none''" 4000] nn by (simp add: exampleVeto_eval(1,2,3))
  have 3: "\<exists>m1. banMap ''Nuke'' Alpha 4000 (banRequests exampleVeto []) = Inr m1 \<and> phase m1 = Veto
          \<and> currentVeto m1 = Beta"
    using a[of "[]" Alpha "''Nuke''" 4000] nn by (auto simp add: exampleVeto_eval(1,2,3))
  have 4: "map bannedBy (bannedMaps (banRequests exampleVeto exampleBans)) = alternating 11"
    using a[of exampleBans Alpha "''Nuke''" 4000] by (simp add: exampleBans_eval(1))
  show ?thesis using 1 2 3 4 d l l12 nn
    by (simp add: exampleVeto_eval(1,2,3) exampleBans_eval(1,2,3))
qed

lemma pickPlayer_serverInfo:
  "pickPlayer sid c now m = Inr m' \<Longrightarrow> serverInfo m' = serverInfo m"
  by (auto simp: pickPlayer_def Let_def applyPick_def assignLastPlayer_def startVeto_def teamPush_def
       split: if_splits option.splits side.splits)

lemma matchStep_serverInfo:
  "\<not> isProvisionOp op \<Longrightarrow> serverInfo (matchStep m op) = serverInfo m"
proof (cases op)
  case (PickOp sid c now)
  then show ?thesis using pickPlayer_serverInfo[of sid c now m]
    by (cases "pickPlayer sid c now m") (auto simp: orElse_def)
qed (auto simp: orElse_def acceptMatch_def endAcceptPhase_def banMap_def Let_def
      completeMatch_def cancelMatch_def split: if_splits)

lemma runMatch_serverInfo:
  "list_all (\<lambda>op. \<not> isProvisionOp op) ops \<Longrightarrow> serverInfo (runMatch m ops) = serverInfo m"
  unfolding runMatch_def by (induction ops arbitrary: m) (simp_all add: matchStep_serverInfo)

text \<open>
  Claim C8. Once the veto has ended and the match is in the \<open>ready\<close> phase, the
  continuation of the provisioning call puts the match into the \<open>live\<close> phase whatever
  the outcome. On success \<open>serverInfo\<close> holds the address, password, server id and
  connect string of the provisioned server; when provisioning reports a failure or
  throws, \<open>serverInfo\<close> is left as it was, which for a match that was never provisioned
  is the empty default. Nothing else of the match changes, so the result of the veto is
  not rolled back.
\<close>

theorem provisioning_always_live:
  "phase (provisionSettled outcome m) = Live
   \<and> (\<forall>si. outcome = ProvisionSuccess si \<longrightarrow>
         serverInfo (provisionSettled outcome m)
           = \<lparr>ip = Some (prov_ip si), password = Some (prov_password si), rcon = None,
              serverId = Some (prov_serverId si), connectString = Some (prov_connectString si)\<rparr>)
   \<and> (\<forall>e. outcome = ProvisionFailure e \<or> outcome = ProvisionThrown e \<longrightarrow>
         serverInfo (provisionSettled outcome m) = serverInfo m)
   \<and> provisionSettled outcome m
        = m\<lparr>serverInfo := serverInfo (provisionSettled outcome m), phase := Live\<rparr>
   \<and> (\<forall>m1. banMap_controller mapName captain now m = Inr m1 \<and> phase m1 = Ready \<longrightarrow>
         banMap_then_provision mapName captain now outcome m = Inr (provisionSettled outcome m1)
         \<and> selectedMap (provisionSettled outcome m1) = selectedMap m1)
   \<and> (list_all (\<lambda>op. \<not> isProvisionOp op) ops \<longrightarrow>
         serverInfo (runMatch (createMatch mid t ps c0 c1) ops) = noServerInfo)"
proof -
  have "serverInfo (createMatch mid t ps c0 c1) = noServerInfo"
    by (simp add: createMatch_def generatePickOrder_def)
  then have "list_all (\<lambda>op. \<not> isProvisionOp op) ops \<longrightarrow>
         serverInfo (runMatch (createMatch mid t ps c0 c1) ops) = noServerInfo"
    by (simp add: runMatch_serverInfo)
  then show ?thesis
    by (cases outcome) (simp_all add: provisionSettled_def banMap_then_provision_def)
qed

lemma exampleLastBan_eval:
  "phase exampleLastBan = Veto" "currentVeto exampleLastBan = Alpha"
  "availableMaps exampleLastBan = [''Train'', ''Aztec'']"
  "serverInfo exampleLastBan = noServerInfo"
  by (simp_all add: exampleLastBan_def exampleBans_def exampleVeto_def exampleLastPick_def example_defs
        pick_defs veto_defs defaultMaps_def)

theorem provisioning_always_live_witness:
  "(\<exists>m1. banMap_controller ''Train'' Alpha 4012 exampleLastBan = Inr m1 \<and> phase m1 = Ready
      \<and> selectedMap m1 = Some ''Aztec''
      \<and> banMap_then_provision ''Train'' Alpha 4012 (ProvisionFailure ''no server'') exampleLastBan
          = Inr (provisionSettled (ProvisionFailure ''no server'') m1)
      \<and> phase (provisionSettled (ProvisionFailure ''no server'') m1) = Live
      \<and> serverInfo (provisionSettled (ProvisionFailure ''no server'') m1) = noServerInfo
      \<and> selectedMap (provisionSettled (ProvisionFailure ''no server'') m1) = Some ''Aztec''
      \<and> phase (provisionSettled (ProvisionThrown ''timeout'') m1) = Live
      \<and> serverInfo (provisionSettled (ProvisionThrown ''timeout'') m1) = noServerInfo
      \<and> phase (provisionSettled (ProvisionSuccess exampleServer) m1) = Live
      \<and> connectString (serverInfo (provisionSettled (ProvisionSuccess exampleServer) m1))
          = Some ''connect 10.0.0.1:27015'')"
proof -
  let ?m1 = "exampleLastBan\<lparr>availableMaps := [''Aztec''],
       bannedMaps := bannedMaps exampleLastBan @
          [\<lparr>ban_map = ''Train'', bannedBy = Alpha, bannedAt = 4012\<rparr>],
       selectedMap := Some ''Aztec'', phase := Ready, readyStartedAt := Some 4012\<rparr>"
  have c: "banMap_controller ''Train'' Alpha 4012 exampleLastBan = Inr ?m1"
    by (simp add: banMap_controller_def banMap_def Let_def exampleLastBan_eval)
  have r: "phase ?m1 = Ready" "serverInfo ?m1 = noServerInfo" "selectedMap ?m1 = Some ''Aztec''"
    by (simp_all add: exampleLastBan_eval)
  note f = provisioning_always_live[of "ProvisionFailure ''no server''" exampleLastBan "''Train''" Alpha 4012 "[]"]
  note f1 = provisioning_always_live[of "ProvisionFailure ''no server''" ?m1 "''Train''" Alpha 4012 "[]"]
  note th = provisioning_always_live[of "ProvisionThrown ''timeout''" ?m1 "''Train''" Alpha 4012 "[]"]
  note su = provisioning_always_live[of "ProvisionSuccess exampleServer" ?m1 "''Train''" Alpha 4012 "[]"]
  have 1: "banMap_then_provision ''Train'' Alpha 4012 (ProvisionFailure ''no server'') exampleLastBan
          = Inr (provisionSettled (ProvisionFailure ''no server'') ?m1)"
    "selectedMap (provisionSettled (ProvisionFailure ''no server'') ?m1) = Some ''Aztec''"
    using f c r by auto
  have 2: "phase (provisionSettled (ProvisionFailure ''no server'') ?m1) = Live"
      "serverInfo (provisionSettled (ProvisionFailure ''no server'') ?m1) = noServerInfo"
    using f1 r by auto
  have 3: "phase (provisionSettled (ProvisionThrown ''timeout'') ?m1) = Live"
      "serverInfo (provisionSettled (ProvisionThrown ''timeout'') ?m1) = noServerInfo"
    using th r by auto
  have 4: "phase (provisionSettled (ProvisionSuccess exampleServer) ?m1) = Live"
      "connectString (serverInfo (provisionSettled (ProvisionSuccess exampleServer) ?m1))
          = Some ''connect 10.0.0.1:27015''"
    using su by (auto simp: exampleServer_def)
  show ?thesis
    apply (rule exI[of _ ?m1])
    using c r 1 2 3 4 by simp
qed

lemma renumber_length [simp]: "length (renumber i ps) = length ps"
  by (induction ps arbitrary: i) auto

lemma renumber_positions: "map position (renumber i ps) = map (\<lambda>k. k + 1) [i..<i + length ps]"
proof (induction ps arbitrary: i)
  case Nil
  then show ?case by simp
next
  case (Cons p ps)
  have "[i..<i + length (p # ps)] = i # [Suc i..<Suc i + length ps]"
    by (subst upt_rec) simp
  then show ?case using Cons[of "Suc i"] by simp
qed

lemma recalculatePositions_contiguous:
  "map position (recalculatePositions ps) = map (\<lambda>k. k + 1) [0..<length (recalculatePositions ps)]"
  by (simp add: recalculatePositions_def renumber_positions)

lemma positionsContiguous_recalc:
  "q_players q' = recalculatePositions ps \<Longrightarrow> positionsContiguous q'"
  by (simp add: positionsContiguous_def recalculatePositions_contiguous)

lemma addPlayer_players:
  "addPlayer valid pl now q = Inr q' \<Longrightarrow>
     q_players q' = q_players q @
       [\<lparr>steamId = steamId pl, name = name pl, avatar = avatar pl, joinedAt = now,
         position = length (q_players q) + 1, hasPriority = False\<rparr>]"
  by (auto simp: addPlayer_def Let_def split: if_splits)

lemma addPlayer_contiguous:
  assumes "positionsContiguous q" and "addPlayer valid pl now q = Inr q'"
  shows "positionsContiguous q'"
  unfolding positionsContiguous_def addPlayer_players[OF assms(2)]
  using assms(1) by (simp add: positionsContiguous_def)

lemma removePlayer_contiguous:
  "removePlayer sid q = Inr q' \<Longrightarrow> positionsContiguous q'"
  by (auto simp: removePlayer_def Let_def split: if_splits intro!: positionsContiguous_recalc)

lemma queue_acceptMatch_players:
  "queue_acceptMatch sid q = Inr q' \<Longrightarrow> q_players q' = q_players q"
  by (auto simp: queue_acceptMatch_def split: if_splits)

lemma queueStep_contiguous:
  "positionsContiguous q \<Longrightarrow> positionsContiguous (queueStep valid q op)"
proof (cases op)
  case (JoinOp pl now)
  assume "positionsContiguous q"
  then show ?thesis using JoinOp addPlayer_contiguous[of q valid pl now]
    by (cases "addPlayer valid pl now q") (auto simp: orElse_def)
next
  case (LeaveOp sid)
  assume "positionsContiguous q"
  then show ?thesis using LeaveOp removePlayer_contiguous[of sid q]
    by (cases "removePlayer sid q") (auto simp: orElse_def)
next
  case AcceptResultsOp
  show ?thesis unfolding AcceptResultsOp
    by (rule positionsContiguous_recalc)
       (simp add: processAcceptPhaseResults_queue_def Let_def fullOrWaiting_def)
next
  case (ReadyTimeoutOp acc non)
  show ?thesis unfolding ReadyTimeoutOp
    by (rule positionsContiguous_recalc)
       (simp add: rebuildOnReadyTimeout_def Let_def fullOrWaiting_def)
next
  case (StartAcceptOp now)
  assume "positionsContiguous q"
  then show ?thesis using StartAcceptOp by (simp add: positionsContiguous_def startAcceptPhase_def)
next
  case (QueueAcceptOp sid)
  assume "positionsContiguous q"
  then show ?thesis using QueueAcceptOp queue_acceptMatch_players[of sid q]
    by (cases "queue_acceptMatch sid q") (auto simp: orElse_def positionsContiguous_def)
qed

lemma runQueue_contiguous:
  "positionsContiguous q \<Longrightarrow> positionsContiguous (runQueue valid q ops)"
  unfolding runQueue_def by (induction ops arbitrary: q) (simp_all add: queueStep_contiguous)

lemma positionsContiguous_nth:
  "positionsContiguous q \<Longrightarrow> i < length (q_players q) \<Longrightarrow> position (q_players q ! i) = i + 1"
proof -
  assume a: "positionsContiguous q" and i: "i < length (q_players q)"
  have "position (q_players q ! i) = map position (q_players q) ! i" using i by simp
  also have "\<dots> = map (\<lambda>k. k + 1) [0..<length (q_players q)] ! i"
    using a by (simp add: positionsContiguous_def)
  also have "\<dots> = i + 1" using i by simp
  finally show ?thesis .
qed

text \<open>
  Claim C7. A queue is created empty. After any sequence of joins, leaves, accept-phase
  operations and timeout rebuilds, and whatever the schema validator lets through, the
  positions of the entries are 1, 2, ..., n in array order: the entry at index i has
  position i + 1. More generally every such operation keeps this property of a queue
  that has it.
\<close>

theorem queue_positions_contiguous:
  "positionsContiguous (runQueue valid (newQueue qid t) ops)
   \<and> (\<forall>i < length (q_players (runQueue valid (newQueue qid t) ops)).
         position (q_players (runQueue valid (newQueue qid t) ops) ! i) = i + 1)
   \<and> (positionsContiguous q \<longrightarrow> positionsContiguous (runQueue valid q ops))"
proof -
  have "positionsContiguous (newQueue qid t)"
    by (simp add: positionsContiguous_def newQueue_def)
  then have "positionsContiguous (runQueue valid (newQueue qid t) ops)"
    by (rule runQueue_contiguous)
  then show ?thesis using positionsContiguous_nth runQueue_contiguous by blast
qed

lemma exampleQueue_eval:
  "map (\<lambda>p. (steamId p, position p, hasPriority p))
     (q_players (runQueue (\<lambda>_. True) (newQueue ''q1'' 1) exampleQueueOps))
   = [(''d'', 1, True), (''c'', 2, False)]"
  by (simp add: exampleQueueOps_def runQueue_def newQueue_def orElse_def addPlayer_def removePlayer_def
      rebuildOnReadyTimeout_def recalculatePositions_def fullOrWaiting_def resetAcceptPhase_def
      exampleRef_def Let_def)

theorem queue_positions_contiguous_witness:
  "length (q_players (runQueue (\<lambda>_. True) (newQueue ''q1'' 1) exampleQueueOps)) = 2
   \<and> (1::nat) < 2
   \<and> position (q_players (runQueue (\<lambda>_. True) (newQueue ''q1'' 1) exampleQueueOps) ! 1) = 2
   \<and> positionsContiguous (runQueue (\<lambda>_. True) (newQueue ''q1'' 1) exampleQueueOps)
   \<and> positionsContiguous (runQueue (\<lambda>_. True) (newQueue ''q1'' 1) (take 3 exampleQueueOps))
   \<and> positionsContiguous
        (runQueue (\<lambda>_. True) (runQueue (\<lambda>_. True) (newQueue ''q1'' 1) (take 3 exampleQueueOps))
           exampleQueueOps)"
proof -
  let ?q = "runQueue (\<lambda>_. True) (newQueue ''q1'' 1) exampleQueueOps"
  have l: "length (q_players ?q) = 2"
    using arg_cong[OF exampleQueue_eval, of length] by simp
  note a = queue_positions_contiguous[of "\<lambda>_. True" "''q1''" 1 exampleQueueOps
      "runQueue (\<lambda>_. True) (newQueue ''q1'' 1) (take 3 exampleQueueOps)"]
  note b = queue_positions_contiguous[of "\<lambda>_. True" "''q1''" 1 "take 3 exampleQueueOps"]
  have "position (q_players ?q ! 1) = 2" using a l by simp
  then show ?thesis using a b l by simp
qed

lemma update_first_length [simp]: "length (update_first P f xs) = length xs"
  by (induction xs) auto

lemma update_first_count:
  "find P xs = Some x \<Longrightarrow> \<not> Q x \<Longrightarrow> Q (f x) \<Longrightarrow>
   length (filter Q (update_first P f xs)) = Suc (length (filter Q xs))"
  by (induction xs) (auto split: if_splits)

lemma find_update_first:
  "find P xs = Some x \<Longrightarrow> P (f x) \<Longrightarrow> find P (update_first P f xs) = Some (f x)"
  by (induction xs) (auto split: if_splits)

lemma recordPlayerAccept_first:
  assumes s: "find (activeSession mid) ss = Some s"
    and p: "find (\<lambda>p. userId p = uid) (rs_players s) = Some pl"
    and n: "\<not> accepted pl"
  shows "recordPlayerAccept mid uid now ss =
     (Inr (getSessionStats now
        (s\<lparr>rs_players := update_first (\<lambda>p. userId p = uid)
              (\<lambda>p. p\<lparr>accepted := True, rp_acceptedAt := Some now\<rparr>) (rs_players s)\<rparr>)),
      update_first (activeSession mid)
        (\<lambda>_. s\<lparr>rs_players := update_first (\<lambda>p. userId p = uid)
              (\<lambda>p. p\<lparr>accepted := True, rp_acceptedAt := Some now\<rparr>) (rs_players s)\<rparr>) ss)"
  using s p n by (simp add: recordPlayerAccept_def Let_def)

lemma find_Some_holds: "find P xs = Some x \<Longrightarrow> P x"
  by (induction xs) (auto split: if_splits)

lemma recordPlayerAccept_stored:
  fixes now :: nat
  assumes s: "find (activeSession mid) ss = Some s"
    and p: "find (\<lambda>p. userId p = uid) (rs_players s) = Some pl"
    and n: "\<not> accepted pl"
  defines "s' \<equiv> s\<lparr>rs_players := update_first (\<lambda>p. userId p = uid)
              (\<lambda>p. p\<lparr>accepted := True, rp_acceptedAt := Some now\<rparr>) (rs_players s)\<rparr>"
  defines "ss' \<equiv> update_first (activeSession mid) (\<lambda>_. s') ss"
  shows "find (activeSession mid) ss' = Some s'"
    and "find (\<lambda>p. userId p = uid) (rs_players s')
           = Some (pl\<lparr>accepted := True, rp_acceptedAt := Some now\<rparr>)"
    and "acceptedCount (getSessionStats now s') = acceptedCount (getSessionStats now s) + 1"
    and "totalPlayers (getSessionStats now s') = totalPlayers (getSessionStats now s)"
    and "recordPlayerAccept mid uid later ss' = (Inr (getSessionStats later s'), ss')"
proof -
  have act: "activeSession mid s" using s by (rule find_Some_holds)
  then have act': "activeSession mid s'" by (simp add: s'_def activeSession_def)
  show f1: "find (activeSession mid) ss' = Some s'"
    unfolding ss'_def using s act' by (rule find_update_first)
  have uid: "userId pl = uid" using find_Some_holds[OF p] by simp
  show f2: "find (\<lambda>p. userId p = uid) (rs_players s')
           = Some (pl\<lparr>accepted := True, rp_acceptedAt := Some now\<rparr>)"
    unfolding s'_def using find_update_first[OF p, of "\<lambda>p. p\<lparr>accepted := True, rp_acceptedAt := Some now\<rparr>"] uid
    by simp
  have "length (filter accepted (rs_players s')) = Suc (length (filter accepted (rs_players s)))"
    unfolding s'_def using p n by (simp add: update_first_count)
  then show "acceptedCount (getSessionStats now s') = acceptedCount (getSessionStats now s) + 1"
    by (simp add: getSessionStats_def Let_def)
  show "totalPlayers (getSessionStats now s') = totalPlayers (getSessionStats now s)"
    by (simp add: getSessionStats_def Let_def s'_def)
  show "recordPlayerAccept mid uid later ss' = (Inr (getSessionStats later s'), ss')"
    using f1 f2 by (simp add: recordPlayerAccept_def)
qed

text \<open>
  Claim C3, as the code has it by design. \<open>recordPlayerAccept\<close> answers with the error
  \<open>Session not found or expired\<close> when no active session has the given id, and with
  \<open>User not in session\<close> when the player is not in the roster; in both cases nothing is
  stored. A repeated accept of a player who has accepted is a success that returns the
  stats of the unchanged session and stores nothing. A first accept that arrives no
  later than \<open>expiresAt\<close> is stored: the session found under the id afterwards is the
  old one with this player's \<open>accepted\<close> set and \<open>acceptedAt\<close> the time of the call, the
  stats returned are those of the stored session, with one more accepted player, and
  any later accept of the same player returns the stats of that stored session and
  stores nothing. The method \<open>acceptMatch\<close> of a match fails whenever
  \<open>now > expiresAt\<close>, with \<open>Accept phase has expired\<close> when the phase is active; and for
  a player of the roster who has accepted it throws \<open>Player already accepted\<close>: there a
  repeated accept is an error to the caller.
\<close>

theorem accept_outcomes:
  "(find (activeSession mid) ss = None \<longrightarrow>
      recordPlayerAccept mid uid now ss = (Inl SessionNotFoundOrExpired, ss))
   \<and> (\<forall>s. find (activeSession mid) ss = Some s
          \<and> find (\<lambda>p. userId p = uid) (rs_players s) = None \<longrightarrow>
        recordPlayerAccept mid uid now ss = (Inl UserNotInSession, ss))
   \<and> (\<forall>s pl. find (activeSession mid) ss = Some s
          \<and> find (\<lambda>p. userId p = uid) (rs_players s) = Some pl \<and> accepted pl \<longrightarrow>
        recordPlayerAccept mid uid now ss = (Inr (getSessionStats now s), ss))
   \<and> (\<forall>s pl. find (activeSession mid) ss = Some s
          \<and> find (\<lambda>p. userId p = uid) (rs_players s) = Some pl \<and> \<not> accepted pl
          \<and> now \<le> rs_expiresAt s \<longrightarrow>
        (let s' = s\<lparr>rs_players := update_first (\<lambda>p. userId p = uid)
                       (\<lambda>p. p\<lparr>accepted := True, rp_acceptedAt := Some now\<rparr>) (rs_players s)\<rparr>;
             ss' = update_first (activeSession mid) (\<lambda>_. s') ss
         in recordPlayerAccept mid uid now ss = (Inr (getSessionStats now s'), ss')
            \<and> find (activeSession mid) ss' = Some s'
            \<and> find (\<lambda>p. userId p = uid) (rs_players s')
                 = Some (pl\<lparr>accepted := True, rp_acceptedAt := Some now\<rparr>)
            \<and> acceptedCount (getSessionStats now s') = acceptedCount (getSessionStats now s) + 1
            \<and> totalPlayers (getSessionStats now s') = totalPlayers (getSessionStats now s)
            \<and> (\<forall>later. recordPlayerAccept mid uid later ss'
                          = (Inr (getSessionStats later s'), ss'))))
   \<and> (now > expiresAt (acceptPhase m) \<longrightarrow>
        acceptMatch sid now m
          = Inl (if active (acceptPhase m) then AcceptPhaseExpired else AcceptPhaseNotActive))
   \<and> (active (acceptPhase m) \<and> \<not> now > expiresAt (acceptPhase m)
        \<and> list_ex (\<lambda>p. req_steamId p = sid) (requiredPlayers (acceptPhase m))
        \<and> list_ex (\<lambda>p. acc_steamId p = sid) (acceptedPlayers (acceptPhase m)) \<longrightarrow>
        acceptMatch sid now m = Inl PlayerAlreadyAccepted)"
  (is "?A \<and> ?B \<and> ?C \<and> ?D \<and> ?E \<and> ?F")
proof -
  have A: ?A and B: ?B and C: ?C by (auto simp: recordPlayerAccept_def)
  have D: ?D
  proof (intro allI impI)
    fix s pl
    assume "find (activeSession mid) ss = Some s
          \<and> find (\<lambda>p. userId p = uid) (rs_players s) = Some pl \<and> \<not> accepted pl
          \<and> now \<le> rs_expiresAt s"
    then have s: "find (activeSession mid) ss = Some s"
      and p: "find (\<lambda>p. userId p = uid) (rs_players s) = Some pl"
      and n: "\<not> accepted pl" by simp_all
    note first = recordPlayerAccept_first[OF s p n, where now = now]
    note stored = recordPlayerAccept_stored[OF s p n, where now = now]
    show "let s' = s\<lparr>rs_players := update_first (\<lambda>p. userId p = uid)
                       (\<lambda>p. p\<lparr>accepted := True, rp_acceptedAt := Some now\<rparr>) (rs_players s)\<rparr>;
             ss' = update_first (activeSession mid) (\<lambda>_. s') ss
         in recordPlayerAccept mid uid now ss = (Inr (getSessionStats now s'), ss')
            \<and> find (activeSession mid) ss' = Some s'
            \<and> find (\<lambda>p. userId p = uid) (rs_players s')
                 = Some (pl\<lparr>accepted := True, rp_acceptedAt := Some now\<rparr>)
            \<and> acceptedCount (getSessionStats now s') = acceptedCount (getSessionStats now s) + 1
            \<and> totalPlayers (getSessionStats now s') = totalPlayers (getSessionStats now s)
            \<and> (\<forall>later. recordPlayerAccept mid uid later ss'
                          = (Inr (getSessionStats later s'), ss'))"
      unfolding Let_def
      using first stored(1) stored(2) stored(3) stored(4) stored(5) by blast
  qed
  have E: ?E and F: ?F by (auto simp: acceptMatch_def)
  show ?thesis using A B C D E F by blast
qed

lemma exampleSession_find:
  "find (activeSession ''PEND-1'') [exampleSession] = Some exampleSession"
  "find (activeSession ''PEND-2'') [exampleSession] = None"
  "find (\<lambda>p. userId p = ''p0'') (rs_players exampleSession)
     = Some \<lparr>userId = ''p0'', accepted = True, rp_acceptedAt = Some 5000\<rparr>"
  "find (\<lambda>p. userId p = ''p1'') (rs_players exampleSession)
     = Some \<lparr>userId = ''p1'', accepted = False, rp_acceptedAt = None\<rparr>"
  "find (\<lambda>p. userId p = ''zz'') (rs_players exampleSession) = None"
  "rs_expiresAt exampleSession = 21000"
  "acceptedCount (getSessionStats now exampleSession) = 1"
  by (simp_all add: exampleSession_def activeSession_def exampleIds_def getSessionStats_def)

text \<open>The example session is what starting the ready phase and the accept of \<open>p0\<close> store.\<close>

lemma exampleSession_reached:
  "map_sum id (\<lambda>(s, ss). snd (recordPlayerAccept ''PEND-1'' ''p0'' 5000 ss))
     (startReadyPhase ''PEND-1'' exampleIds (Some ''q1'') 20 1000 [])
   = Inr [exampleSession]"
  by (simp add: startReadyPhase_def recordPlayerAccept_def activeSession_def exampleSession_def
        exampleIds_def Let_def)

lemma exampleAccepting_eval:
  "active (acceptPhase exampleAccepting)" "expiresAt (acceptPhase exampleAccepting) = 61000"
  "list_ex (\<lambda>p. req_steamId p = ''p0'') (requiredPlayers (acceptPhase exampleAccepting))"
  "list_ex (\<lambda>p. acc_steamId p = ''p0'') (acceptedPlayers (acceptPhase exampleAccepting))"
  by (simp_all add: exampleAccepting_def example_defs)

text \<open>
  The claim as it was stated fails on \<open>acceptMatch\<close>: in the example match \<open>p0\<close> is in
  the roster and has accepted, the accept phase is active and has not expired, and the
  repeated accept of \<open>p0\<close> is an error.
\<close>

theorem repeated_accept_counterexample:
  "active (acceptPhase exampleAccepting)
   \<and> \<not> 3000 > expiresAt (acceptPhase exampleAccepting)
   \<and> map req_steamId (requiredPlayers (acceptPhase exampleAccepting)) = exampleIds
   \<and> map acc_steamId (acceptedPlayers (acceptPhase exampleAccepting)) = [''p0'']
   \<and> acceptMatch ''p0'' 3000 exampleAccepting = Inl PlayerAlreadyAccepted"
  by (simp add: acceptMatch_def exampleAccepting_def example_defs exampleIds_def)

text \<open>
  Unlike \<open>acceptMatch\<close>, \<open>recordPlayerAccept\<close> has no comparison of the time of the call
  with \<open>expiresAt\<close>: on the example session, which expires at 21000, a first accept at
  30000 is stored.
\<close>

lemma recordPlayerAccept_late_example:
  "30000 > rs_expiresAt exampleSession
   \<and> \<not> isl (fst (recordPlayerAccept ''PEND-1'' ''p1'' 30000 [exampleSession]))
   \<and> map accepted (rs_players (hd (snd (recordPlayerAccept ''PEND-1'' ''p1'' 30000 [exampleSession]))))
       = [True, True, False, False, False, False, False, False, False, False]"
  by (simp add: recordPlayerAccept_def exampleSession_def activeSession_def exampleIds_def
        getSessionStats_def Let_def)

theorem accept_outcomes_witness:
  "recordPlayerAccept ''PEND-2'' ''p0'' 6000 [exampleSession]
      = (Inl SessionNotFoundOrExpired, [exampleSession])
   \<and> recordPlayerAccept ''PEND-1'' ''zz'' 6000 [exampleSession]
      = (Inl UserNotInSession, [exampleSession])
   \<and> recordPlayerAccept ''PEND-1'' ''p0'' 6000 [exampleSession]
      = (Inr (getSessionStats 6000 exampleSession), [exampleSession])
   \<and> (6000::nat) \<le> rs_expiresAt exampleSession
   \<and> (\<exists>s'. recordPlayerAccept ''PEND-1'' ''p1'' 6000 [exampleSession]
                = (Inr (getSessionStats 6000 s'), [s'])
         \<and> acceptedCount (getSessionStats 6000 s') = 2
         \<and> map accepted (rs_players s')
              = [True, True, False, False, False, False, False, False, False, False]
         \<and> recordPlayerAccept ''PEND-1'' ''p1'' 7000 [s'] = (Inr (getSessionStats 7000 s'), [s']))
   \<and> active (acceptPhase exampleAccepting) \<and> 70000 > expiresAt (acceptPhase exampleAccepting)
   \<and> acceptMatch ''p2'' 70000 exampleAccepting = Inl AcceptPhaseExpired
   \<and> \<not> 3000 > expiresAt (acceptPhase exampleAccepting)
   \<and> acceptMatch ''p0'' 3000 exampleAccepting = Inl PlayerAlreadyAccepted"
proof -
  note a = accept_outcomes[of "''PEND-2''" "[exampleSession]" "''p0''" 6000 exampleAccepting "''p2''"]
  note b = accept_outcomes[of "''PEND-1''" "[exampleSession]" "''zz''" 6000 exampleAccepting "''p2''"]
  note c = accept_outcomes[of "''PEND-1''" "[exampleSession]" "''p0''" 6000 exampleAccepting "''p2''"]
  note d = accept_outcomes[of "''PEND-1''" "[exampleSession]" "''p1''" 6000 exampleAccepting "''p2''"]
  note e = accept_outcomes[of "''PEND-1''" "[exampleSession]" "''p1''" 70000 exampleAccepting "''p2''"]
  note f = accept_outcomes[of "''PEND-1''" "[exampleSession]" "''p1''" 3000 exampleAccepting "''p0''"]
  let ?s' = "exampleSession\<lparr>rs_players := update_first (\<lambda>p. userId p = ''p1'')
                (\<lambda>p. p\<lparr>accepted := True, rp_acceptedAt := Some 6000\<rparr>) (rs_players exampleSession)\<rparr>"
  have 1: "recordPlayerAccept ''PEND-2'' ''p0'' 6000 [exampleSession]
      = (Inl SessionNotFoundOrExpired, [exampleSession])"
    using a exampleSession_find(2) by blast
  have 2: "recordPlayerAccept ''PEND-1'' ''zz'' 6000 [exampleSession]
      = (Inl UserNotInSession, [exampleSession])"
    using b exampleSession_find(1,5) by blast
  have 3: "recordPlayerAccept ''PEND-1'' ''p0'' 6000 [exampleSession]
      = (Inr (getSessionStats 6000 exampleSession), [exampleSession])"
    using c exampleSession_find(1,3) by auto
  have le: "(6000::nat) \<le> rs_expiresAt exampleSession" by (simp add: exampleSession_find(6))
  have act: "activeSession ''PEND-1'' exampleSession"
    using exampleSession_find(1) by (rule find_Some_holds)
  have u: "update_first (activeSession ''PEND-1'') (\<lambda>_. ?s') [exampleSession] = [?s']"
    using act by simp
  have d': "recordPlayerAccept ''PEND-1'' ''p1'' 6000 [exampleSession]
                = (Inr (getSessionStats 6000 ?s'), [?s'])
         \<and> acceptedCount (getSessionStats 6000 ?s') = acceptedCount (getSessionStats 6000 exampleSession) + 1
         \<and> (\<forall>later. recordPlayerAccept ''PEND-1'' ''p1'' later [?s']
                          = (Inr (getSessionStats later ?s'), [?s']))"
    using d exampleSession_find(1,4) le unfolding Let_def u by auto
  have m: "map accepted (rs_players ?s')
              = [True, True, False, False, False, False, False, False, False, False]"
    by (simp add: exampleSession_def exampleIds_def)
  have 4: "\<exists>s'. recordPlayerAccept ''PEND-1'' ''p1'' 6000 [exampleSession]
                = (Inr (getSessionStats 6000 s'), [s'])
         \<and> acceptedCount (getSessionStats 6000 s') = 2
         \<and> map accepted (rs_players s')
              = [True, True, False, False, False, False, False, False, False, False]
         \<and> recordPlayerAccept ''PEND-1'' ''p1'' 7000 [s'] = (Inr (getSessionStats 7000 s'), [s'])"
    apply (rule exI[of _ ?s'])
    using d' m exampleSession_find(7)[of 6000] by simp
  have 5: "acceptMatch ''p2'' 70000 exampleAccepting = Inl AcceptPhaseExpired"
    using e exampleAccepting_eval by simp
  have 6: "acceptMatch ''p0'' 3000 exampleAccepting = Inl PlayerAlreadyAccepted"
    using f exampleAccepting_eval by simp
  show ?thesis using 1 2 3 4 5 6 le exampleAccepting_eval by simp
qed

lemma find_update_first_same:
  "find P xs = Some x \<Longrightarrow> P y \<Longrightarrow> find P (update_first P (\<lambda>_. y) xs) = Some y"
  by (induction xs) (auto split: if_splits)

lemma update_first_none: "find P xs = None \<Longrightarrow> update_first P f xs = xs"
  by (induction xs) (auto split: if_splits)

lemma find_active_after_update:
  "distinct (map rs_matchId ss) \<Longrightarrow> (\<And>s. rs_matchId (f s) = rs_matchId s) \<Longrightarrow>
   (\<And>s. rs_status (f s) \<noteq> SessionActive) \<Longrightarrow>
   find (activeSession mid) (update_first (activeSession mid) f ss) = None"
proof (induction ss)
  case Nil
  then show ?case by simp
next
  case (Cons s ss)
  show ?case
  proof (cases "activeSession mid s")
    case True
    then have "rs_matchId s = mid" by (simp add: activeSession_def)
    then have "mid \<notin> rs_matchId ` set ss" using Cons.prems(1) by simp
    then have "\<forall>x \<in> set ss. rs_matchId x \<noteq> mid" by blast
    then have "find (activeSession mid) ss = None"
      by (auto simp: find_None_iff activeSession_def)
    moreover have "\<not> activeSession mid (f s)" using Cons.prems(3) by (simp add: activeSession_def)
    ultimately show ?thesis using True by simp
  next
    case False
    then show ?thesis using Cons by simp
  qed
qed

lemma handleReadyTimeout_none:
  "find (activeSession mid) ss = None \<Longrightarrow> handleReadyTimeout mid ss = (None, ss)"
  by (simp add: handleReadyTimeout_def findActiveAndUpdate_def)

lemma readyTimeoutFired_noop:
  "find (activeSession mid) (w_sessions w) = None \<Longrightarrow> readyTimeoutFired mid w = w"
  by (simp add: readyTimeoutFired_def handleReadyTimeout_none)

lemma completeReadyPhase_inactive:
  "distinct (map rs_matchId ss) \<Longrightarrow>
   find (activeSession mid) (snd (completeReadyPhase mid now ss)) = None"
  by (cases "find (activeSession mid) ss")
     (simp_all add: completeReadyPhase_def findActiveAndUpdate_def find_active_after_update)

lemma readyTimeoutCallback_sessions: "w_sessions (readyTimeoutCallback r w) = w_sessions w"
  by (simp add: readyTimeoutCallback_def Let_def split: option.splits)

lemma readyTimeoutFired_inactive:
  "distinct (map rs_matchId (w_sessions w)) \<Longrightarrow>
   find (activeSession mid) (w_sessions (readyTimeoutFired mid w)) = None"
  by (cases "find (activeSession mid) (w_sessions w)")
     (simp_all add: readyTimeoutFired_def handleReadyTimeout_def findActiveAndUpdate_def
        readyTimeoutCallback_sessions find_active_after_update)

lemma endAcceptPhase_simps:
  "active (acceptPhase (endAcceptPhase m)) = False" "matchId (endAcceptPhase m) = matchId m"
  by (simp_all add: endAcceptPhase_def Let_def)

lemma processAcceptTimeout_inactive:
  "find (\<lambda>m. matchId m = mid) (w_matches w) = Some m \<Longrightarrow> \<not> active (acceptPhase m) \<Longrightarrow>
   processAcceptTimeout valid newId mid now w = w"
  by (simp add: processAcceptTimeout_def)

lemma find_matchId: "find (\<lambda>m. matchId m = mid) ms = Some m \<Longrightarrow> matchId m = mid"
  by (induction ms) (auto split: if_splits)

lemma processAcceptTimeout_matches:
  "find (\<lambda>m. matchId m = mid) (w_matches w) = Some m \<Longrightarrow> active (acceptPhase m) \<Longrightarrow>
   w_matches (processAcceptTimeout valid newId mid now w) = saveMatch (endAcceptPhase m) (w_matches w)"
  by (simp add: processAcceptTimeout_def Let_def split: prod.splits)

lemma find_saveMatch:
  assumes "find (\<lambda>x. matchId x = mid) ms = Some m" and "matchId m' = mid"
  shows "find (\<lambda>x. matchId x = mid) (saveMatch m' ms) = Some m'"
  unfolding saveMatch_def assms(2)
  using assms by (intro find_update_first_same) simp_all

lemma processAcceptTimeout_twice:
  "processAcceptTimeout valid newId' mid now' (processAcceptTimeout valid newId mid now w)
     = processAcceptTimeout valid newId mid now w"
proof (cases "find (\<lambda>m. matchId m = mid) (w_matches w)")
  case None
  then show ?thesis by (simp add: processAcceptTimeout_def)
next
  case (Some m)
  show ?thesis
  proof (cases "active (acceptPhase m)")
    case False
    then show ?thesis using Some by (simp add: processAcceptTimeout_inactive)
  next
    case True
    let ?w1 = "processAcceptTimeout valid newId mid now w"
    have id: "matchId (endAcceptPhase m) = mid"
      using find_matchId[OF Some] by (simp add: endAcceptPhase_simps)
    have "w_matches ?w1 = saveMatch (endAcceptPhase m) (w_matches w)"
      using Some True by (rule processAcceptTimeout_matches)
    then have "find (\<lambda>m. matchId m = mid) (w_matches ?w1) = Some (endAcceptPhase m)"
      using find_saveMatch[OF Some id] by simp
    then show ?thesis
      by (rule processAcceptTimeout_inactive) (simp add: endAcceptPhase_simps)
  qed
qed

lemma acceptMatch_controller_fast_path:
  assumes "acceptMatch_controller mid sid t w = (Inr st, w')"
    and "as_acceptedCount st \<ge> as_requiredCount st"
  shows "\<exists>m'. find (\<lambda>m. matchId m = mid) (w_matches w') = Some m' \<and> \<not> active (acceptPhase m')"
proof -
  from assms(1) obtain m m1 where f: "find (\<lambda>m. matchId m = mid) (w_matches w) = Some m"
    and a: "acceptMatch sid t m = Inr m1"
    and st: "st = getAcceptStatus t m1"
    and w': "w' = w\<lparr>w_matches := saveMatch (if allPlayersAccepted m1 then endAcceptPhase m1 else m1) (w_matches w)\<rparr>"
    by (auto simp: acceptMatch_controller_def Let_def split: option.splits if_splits sum.splits)
  have all: "allPlayersAccepted m1" using assms(2) st by (simp add: allPlayersAccepted_def getAcceptStatus_def)
  have id: "matchId m1 = mid" using a find_matchId[OF f]
    by (auto simp: acceptMatch_def split: if_splits)
  have "find (\<lambda>m. matchId m = mid) (w_matches w') = Some (endAcceptPhase m1)"
    using w' all find_saveMatch[OF f, of "endAcceptPhase m1"] id by (simp add: endAcceptPhase_simps)
  then show ?thesis by (auto simp: endAcceptPhase_simps)
qed

text \<open>
  Claim C6. The timeout of a ready session changes nothing when no session with the
  given id is active; in particular it changes nothing after \<open>completeReadyPhase\<close> (the
  all-accepted fast path) has completed the session, and a second firing changes nothing
  after the first. Likewise \<open>processAcceptTimeout\<close> changes nothing when the match is
  missing or its accept phase is no longer active, which is the case after the accept
  handler has ended the accept phase because everyone accepted, and running it a second
  time changes nothing. (Session ids are unique in the store.)
\<close>

theorem timeout_resolution_at_most_once:
  "(find (activeSession mid) (w_sessions w) = None \<longrightarrow> readyTimeoutFired mid w = w)
   \<and> (distinct (map rs_matchId (w_sessions w)) \<longrightarrow>
        readyTimeoutFired mid (w\<lparr>w_sessions := snd (completeReadyPhase mid t (w_sessions w))\<rparr>)
          = w\<lparr>w_sessions := snd (completeReadyPhase mid t (w_sessions w))\<rparr>)
   \<and> (distinct (map rs_matchId (w_sessions w)) \<longrightarrow>
        readyTimeoutFired mid (readyTimeoutFired mid w) = readyTimeoutFired mid w)
   \<and> (find (\<lambda>m. matchId m = mid) (w_matches w) = None \<longrightarrow>
        processAcceptTimeout valid newId mid now w = w)
   \<and> (\<forall>m. find (\<lambda>m. matchId m = mid) (w_matches w) = Some m \<and> \<not> active (acceptPhase m) \<longrightarrow>
        processAcceptTimeout valid newId mid now w = w)
   \<and> (\<forall>st w'. acceptMatch_controller mid sid t w = (Inr st, w')
          \<and> as_acceptedCount st \<ge> as_requiredCount st \<longrightarrow>
        processAcceptTimeout valid newId mid now w' = w')
   \<and> processAcceptTimeout valid newId' mid now' (processAcceptTimeout valid newId mid now w)
        = processAcceptTimeout valid newId mid now w"
proof -
  have 1: "find (activeSession mid) (w_sessions w) = None \<longrightarrow> readyTimeoutFired mid w = w"
    by (simp add: readyTimeoutFired_noop)
  have 2: "distinct (map rs_matchId (w_sessions w)) \<longrightarrow>
        readyTimeoutFired mid (w\<lparr>w_sessions := snd (completeReadyPhase mid t (w_sessions w))\<rparr>)
          = w\<lparr>w_sessions := snd (completeReadyPhase mid t (w_sessions w))\<rparr>"
    by (simp add: readyTimeoutFired_noop completeReadyPhase_inactive)
  have 3: "distinct (map rs_matchId (w_sessions w)) \<longrightarrow>
        readyTimeoutFired mid (readyTimeoutFired mid w) = readyTimeoutFired mid w"
    by (simp add: readyTimeoutFired_noop readyTimeoutFired_inactive)
  have 4: "find (\<lambda>m. matchId m = mid) (w_matches w) = None \<longrightarrow>
        processAcceptTimeout valid newId mid now w = w"
    by (simp add: processAcceptTimeout_def)
  have 5: "\<forall>m. find (\<lambda>m. matchId m = mid) (w_matches w) = Some m \<and> \<not> active (acceptPhase m) \<longrightarrow>
        processAcceptTimeout valid newId mid now w = w"
    by (simp add: processAcceptTimeout_inactive)
  have 6: "\<forall>st w'. acceptMatch_controller mid sid t w = (Inr st, w')
          \<and> as_acceptedCount st \<ge> as_requiredCount st \<longrightarrow>
        processAcceptTimeout valid newId mid now w' = w'"
    using acceptMatch_controller_fast_path[of mid sid t w] processAcceptTimeout_inactive
    by blast
  show ?thesis using 1 2 3 4 5 6 processAcceptTimeout_twice by blast
qed


lemmas world_defs = exampleWorld_def exampleWorldNine_def exampleTimedOut_def exampleUsers_def
  exampleUser_def exampleWaitingQueue_def exampleSession_def exampleIds_def exampleRef_def
  newQueue_def addPlayer_def activeSession_def

lemmas timeout_defs = processAcceptTimeout_def getActiveQueue_def saveMatch_def saveQueue_def
  updateMany_def updateOne_def readyTimeoutFired_def readyTimeoutCallback_def
  handleReadyTimeout_def findActiveAndUpdate_def completeReadyPhase_def
  rebuildOnReadyTimeout_def recalculatePositions_def fullOrWaiting_def resetAcceptPhase_def

lemma exampleWorld_timeout_eval:
  "map (\<lambda>p. (steamId p, position p, hasPriority p))
     (q_players (hd (w_queues (processAcceptTimeout (\<lambda>_. True) ''q3'' ''MATCH-1'' 61001 exampleWorld))))
   = [(''z'', 1, False), (''p0'', 2, False), (''p1'', 3, False), (''p2'', 4, False),
      (''p3'', 5, False), (''p4'', 6, False), (''p5'', 7, False), (''p6'', 8, False)]"
  "map (\<lambda>p. (steamId p, position p, hasPriority p))
     (q_players (hd (w_queues (processAcceptTimeout requiredStrings ''q3'' ''MATCH-1'' 61001 exampleWorld))))
   = [(''z'', 1, False)]"
  "map phase (w_matches (processAcceptTimeout valid ''q3'' ''MATCH-1'' 61001 exampleWorld)) = [Cancelled]"
  by (simp_all add: world_defs timeout_defs example_defs requiredStrings_def split: prod.splits)


theorem timeout_resolution_at_most_once_witness:
  "find (activeSession ''PEND-2'') (w_sessions exampleWorld) = None
   \<and> readyTimeoutFired ''PEND-2'' exampleWorld = exampleWorld
   \<and> distinct (map rs_matchId (w_sessions exampleWorld))
   \<and> rs_status (hd (snd (completeReadyPhase ''PEND-1'' 9000 (w_sessions exampleWorld)))) = SessionCompleted
   \<and> readyTimeoutFired ''PEND-1''
         (exampleWorld\<lparr>w_sessions := snd (completeReadyPhase ''PEND-1'' 9000 (w_sessions exampleWorld))\<rparr>)
       = exampleWorld\<lparr>w_sessions := snd (completeReadyPhase ''PEND-1'' 9000 (w_sessions exampleWorld))\<rparr>
   \<and> readyTimeoutFired ''PEND-1'' exampleWorld \<noteq> exampleWorld
   \<and> readyTimeoutFired ''PEND-1'' (readyTimeoutFired ''PEND-1'' exampleWorld)
       = readyTimeoutFired ''PEND-1'' exampleWorld
   \<and> processAcceptTimeout (\<lambda>_. True) ''q3'' ''MATCH-1'' 61001 exampleWorld \<noteq> exampleWorld
   \<and> processAcceptTimeout (\<lambda>_. True) ''q4'' ''MATCH-1'' 61002
         (processAcceptTimeout (\<lambda>_. True) ''q3'' ''MATCH-1'' 61001 exampleWorld)
       = processAcceptTimeout (\<lambda>_. True) ''q3'' ''MATCH-1'' 61001 exampleWorld
   \<and> (\<exists>st w'. acceptMatch_controller ''MATCH-1'' ''p9'' 3000 exampleWorldNine = (Inr st, w')
         \<and> as_acceptedCount st \<ge> as_requiredCount st
         \<and> map phase (w_matches w') = [Draft]
         \<and> processAcceptTimeout (\<lambda>_. True) ''q3'' ''MATCH-1'' 61001 w' = w')"
proof -
  note a = timeout_resolution_at_most_once[where mid = "''PEND-2''" and w = exampleWorld and t = 9000
      and valid = "\<lambda>_. True" and newId = "''q3''" and now = 61001 and sid = "''p9''"
      and newId' = "''q4''" and now' = 61002]
  note b = timeout_resolution_at_most_once[where mid = "''PEND-1''" and w = exampleWorld and t = 9000
      and valid = "\<lambda>_. True" and newId = "''q3''" and now = 61001 and sid = "''p9''"
      and newId' = "''q4''" and now' = 61002]
  note e = timeout_resolution_at_most_once[where mid = "''MATCH-1''" and w = exampleWorld and t = 9000
      and valid = "\<lambda>_. True" and newId = "''q3''" and now = 61001 and sid = "''p9''"
      and newId' = "''q4''" and now' = 61002]
  note c = timeout_resolution_at_most_once[where mid = "''MATCH-1''" and w = exampleWorldNine and t = 3000
      and valid = "\<lambda>_. True" and newId = "''q3''" and now = 61001 and sid = "''p9''"
      and newId' = "''q4''" and now' = 61002]
  have n: "find (activeSession ''PEND-2'') (w_sessions exampleWorld) = None"
    and d: "distinct (map rs_matchId (w_sessions exampleWorld))"
    and st: "rs_status (hd (snd (completeReadyPhase ''PEND-1'' 9000 (w_sessions exampleWorld)))) = SessionCompleted"
    by (simp_all add: world_defs timeout_defs)
  have ne1: "w_sessions (readyTimeoutFired ''PEND-1'' exampleWorld) \<noteq> w_sessions exampleWorld"
    by (simp add: world_defs timeout_defs Let_def)
  have ne2: "w_matches (processAcceptTimeout (\<lambda>_. True) ''q3'' ''MATCH-1'' 61001 exampleWorld)
      \<noteq> w_matches exampleWorld"
  proof
    assume "w_matches (processAcceptTimeout (\<lambda>_. True) ''q3'' ''MATCH-1'' 61001 exampleWorld)
      = w_matches exampleWorld"
    then have "map phase (w_matches exampleWorld) = [Cancelled]"
      using exampleWorld_timeout_eval(3)[of "\<lambda>_. True"] by simp
    moreover have "map phase (w_matches exampleWorld) = [Accept]"
      by (simp add: world_defs example_defs)
    ultimately show False by simp
  qed
  obtain st' w' where r: "acceptMatch_controller ''MATCH-1'' ''p9'' 3000 exampleWorldNine = (Inr st', w')"
    and cnt: "as_acceptedCount st' \<ge> as_requiredCount st'" and ph: "map phase (w_matches w') = [Draft]"
    by (simp add: acceptMatch_controller_def world_defs example_defs saveMatch_def getAcceptStatus_def)
  have 6: "processAcceptTimeout (\<lambda>_. True) ''q3'' ''MATCH-1'' 61001 w' = w'"
    using c r cnt by blast
  have 1: "readyTimeoutFired ''PEND-2'' exampleWorld = exampleWorld" using a n by blast
  have 2: "readyTimeoutFired ''PEND-1''
         (exampleWorld\<lparr>w_sessions := snd (completeReadyPhase ''PEND-1'' 9000 (w_sessions exampleWorld))\<rparr>)
       = exampleWorld\<lparr>w_sessions := snd (completeReadyPhase ''PEND-1'' 9000 (w_sessions exampleWorld))\<rparr>"
    using b d by blast
  have 3: "readyTimeoutFired ''PEND-1'' (readyTimeoutFired ''PEND-1'' exampleWorld)
       = readyTimeoutFired ''PEND-1'' exampleWorld"
    using b d by blast
  have 4: "processAcceptTimeout (\<lambda>_. True) ''q4'' ''MATCH-1'' 61002
         (processAcceptTimeout (\<lambda>_. True) ''q3'' ''MATCH-1'' 61001 exampleWorld)
       = processAcceptTimeout (\<lambda>_. True) ''q3'' ''MATCH-1'' 61001 exampleWorld"
    using e by blast
  show ?thesis using n d st 1 2 3 4 6 r cnt ph ne1 ne2 by auto
qed

lemma addPlayer_no_priority:
  "addPlayer valid pl now q = Inr q' \<Longrightarrow>
     \<exists>e. q_players q' = q_players q @ [e] \<and> \<not> hasPriority e \<and> steamId e = steamId pl"
  by (auto simp: addPlayer_def Let_def split: if_splits)

text \<open>
  Whatever the validator, the loop of \<open>processAcceptTimeout\<close> only appends to the
  queue, behind the entries already there, and no appended entry has priority.
\<close>

lemma requeueAcceptors_appends:
  "\<exists>extra. q_players (fst (requeueAcceptors valid now ps q us)) = q_players q @ extra
      \<and> list_all (\<lambda>p. \<not> hasPriority p) extra"
proof (induction ps arbitrary: q us)
  case Nil
  then show ?case by simp
next
  case (Cons p ps)
  show ?case
  proof (cases "list_ex (\<lambda>x. steamId x = req_steamId p) (q_players q)")
    case True
    then show ?thesis using Cons[of q us] by simp
  next
    case False
    show ?thesis
    proof (cases "addPlayer valid \<lparr>steamId = req_steamId p, name = req_name p, avatar = []\<rparr> now q")
      case (Inl e)
      then show ?thesis using False by simp
    next
      case (Inr q1)
      from addPlayer_no_priority[OF Inr] obtain e where
        e: "q_players q1 = q_players q @ [e]" "\<not> hasPriority e" by auto
      from Cons[of q1 "updateOne (\<lambda>u. u_steamId u = req_steamId p)
                  (\<lambda>u. u\<lparr>inQueue := True, currentMatch := None\<rparr>) us"]
      obtain extra where "q_players (fst (requeueAcceptors valid now ps q1
           (updateOne (\<lambda>u. u_steamId u = req_steamId p)
                  (\<lambda>u. u\<lparr>inQueue := True, currentMatch := None\<rparr>) us))) = q_players q1 @ extra"
        "list_all (\<lambda>p. \<not> hasPriority p) extra" by auto
      then show ?thesis using False Inr e by (intro exI[of _ "e # extra"]) simp
    qed
  qed
qed

lemma renumber_keeps:
  "map (\<lambda>p. (steamId p, hasPriority p)) (renumber i ps) = map (\<lambda>p. (steamId p, hasPriority p)) ps"
  by (induction ps arbitrary: i) auto

text \<open>
  The timeout callback of the ready session does what the accept timeout of the match
  does not: acceptors first and with priority, non-acceptors gone.
\<close>

lemma rebuildOnReadyTimeout_priority:
  "map (\<lambda>p. (steamId p, hasPriority p)) (q_players (rebuildOnReadyTimeout acc non q))
     = map (\<lambda>p. (steamId p, True)) (filter (\<lambda>p. steamId p \<in> set acc) (q_players q))
       @ map (\<lambda>p. (steamId p, hasPriority p))
           (filter (\<lambda>p. steamId p \<notin> set acc \<and> steamId p \<notin> set non) (q_players q))"
proof -
  have f: "filter (\<lambda>p. (steamId p \<in> set acc \<or> steamId p \<in> set non) \<and> steamId p \<in> set acc) (q_players q)
      = filter (\<lambda>p. steamId p \<in> set acc) (q_players q)"
    by (rule filter_cong) auto
  show ?thesis
    by (simp add: rebuildOnReadyTimeout_def Let_def fullOrWaiting_def recalculatePositions_def
          renumber_keeps f comp_def)
qed

text \<open>
  Claim C4 on the example: the match times out with seven of ten accepted while \<open>z\<close>
  waits in the queue without priority. \<open>processAcceptTimeout\<close> cancels the match, but the
  acceptors come back behind \<open>z\<close> and without priority when the validator accepts their
  entries, and not at all when it insists on the required \<open>avatar\<close>; in neither case is
  an acceptor ahead of \<open>z\<close> or marked with priority.
\<close>

theorem processAcceptTimeout_requeues_without_priority:
  "map phase (w_matches (processAcceptTimeout (\<lambda>_. True) ''q3'' ''MATCH-1'' 61001 exampleWorld))
     = [Cancelled]
   \<and> map (\<lambda>p. (steamId p, position p, hasPriority p))
       (q_players (hd (w_queues (processAcceptTimeout (\<lambda>_. True) ''q3'' ''MATCH-1'' 61001 exampleWorld))))
     = [(''z'', 1, False), (''p0'', 2, False), (''p1'', 3, False), (''p2'', 4, False),
        (''p3'', 5, False), (''p4'', 6, False), (''p5'', 7, False), (''p6'', 8, False)]
   \<and> map (\<lambda>p. (steamId p, position p, hasPriority p))
       (q_players (hd (w_queues (processAcceptTimeout requiredStrings ''q3'' ''MATCH-1'' 61001 exampleWorld))))
     = [(''z'', 1, False)]
   \<and> map (\<lambda>u. (u_steamId u, inQueue u))
       (w_users (processAcceptTimeout (\<lambda>_. True) ''q3'' ''MATCH-1'' 61001 exampleWorld))
     = [(''p0'', True), (''p1'', True), (''p2'', True), (''p3'', True), (''p4'', True),
        (''p5'', True), (''p6'', True), (''p7'', False), (''p8'', False), (''p9'', False),
        (''z'', True)]"
  using exampleWorld_timeout_eval(1,2) exampleWorld_timeout_eval(3)[of "\<lambda>_. True"]
  by (simp add: world_defs timeout_defs example_defs split: prod.splits)

lemma entrySteamId_never: "Some s \<notin> set (map entrySteamId entries)"
  by (induction entries) (simp_all add: entrySteamId_def)

lemma updateMany_never: "(\<And>u. \<not> P u) \<Longrightarrow> updateMany P f us = us"
  by (induction us) (simp_all add: updateMany_def)

lemma updateMany_entries:
  "updateMany (\<lambda>u. Some (u_steamId u) \<in> set (map entrySteamId entries)) f us = us"
  by (rule updateMany_never) (rule entrySteamId_never)

lemma update_first_never: "(\<And>u. \<not> P u) \<Longrightarrow> update_first P f us = us"
  by (induction us) simp_all

lemma updateTeamStats_null: "updateTeamStats False won entries us = us"
  by (induction entries arbitrary: us)
     (simp_all add: update_first_never findOneBySteamId_def entrySteamId_def)

text \<open>
  When the driver sends \<open>{ steamId: undefined }\<close> as a test for \<open>null\<close>, completing a
  match with a winning side changes no user at all.
\<close>

lemma completeMatch_controller_changes_no_user:
  "winner = ''alpha'' \<or> winner = ''beta'' \<Longrightarrow>
   \<exists>m'. completeMatch_controller False winner scoreAlpha scoreBeta now m us = Inr (m', us)
      \<and> phase m' = Complete"
  by (auto simp: completeMatch_controller_def completeMatch_def winnerEnum_def Let_def
        updateMany_entries updateTeamStats_null simp del: set_map)

text \<open>The method \<open>updateStats\<close> itself has the numbers of the claim.\<close>

lemma updateStats_numbers:
  "matchesPlayed (stats (updateStats won u)) = matchesPlayed (stats u) + 1"
  "wins (stats (updateStats True u)) = wins (stats u) + 1"
  "rating (stats (updateStats True u)) = rating (stats u) + 25"
  "losses (stats (updateStats False u)) = losses (stats u) + 1"
  "rating (stats (updateStats False u)) = max 0 (rating (stats u) - 25)"
  "wins (stats (updateStats False u)) = wins (stats u)"
  "losses (stats (updateStats True u)) = losses (stats u)"
  by (simp_all add: updateStats_def Let_def)

lemma exampleLive_eval:
  "phase exampleLive = Live"
  "teams_alpha exampleLive = [''p0'', ''p2'', ''p3'', ''p6'', ''p8'']"
  "teams_beta exampleLive = [''p1'', ''p4'', ''p5'', ''p7'', ''p9'']"
  "map steamId (players exampleLive) = exampleIds"
  by (simp_all add: exampleLive_def exampleBans_def exampleVeto_def exampleLastPick_def example_defs
        pick_defs veto_defs defaultMaps_def provisionSettled_def exampleIds_def)

lemma exampleUsers_statLines:
  "map statLine exampleUsers =
     [(''p0'', 0, 0, 0, 1000, Some ''MATCH-1''), (''p1'', 0, 0, 0, 1000, Some ''MATCH-1''),
      (''p2'', 0, 0, 0, 1000, Some ''MATCH-1''), (''p3'', 0, 0, 0, 1000, Some ''MATCH-1''),
      (''p4'', 0, 0, 0, 1000, Some ''MATCH-1''), (''p5'', 0, 0, 0, 1000, Some ''MATCH-1''),
      (''p6'', 0, 0, 0, 1000, Some ''MATCH-1''), (''p7'', 0, 0, 0, 1000, Some ''MATCH-1''),
      (''p8'', 0, 0, 0, 1000, Some ''MATCH-1''), (''p9'', 0, 0, 0, 1000, Some ''MATCH-1''),
      (''z'', 0, 0, 0, 1000, None)]"
  by (simp add: exampleUsers_def exampleUser_def exampleIds_def statLine_def)

text \<open>
  Claim C5 on the example: the live example match, alpha being \<open>p0, p2, p3, p6, p8\<close>, is
  completed with winner \<open>alpha\<close>. The handler reads \<open>steamId\<close> of the team entries, which
  are strings, so its queries carry \<open>undefined\<close>: with a driver that tests for \<open>null\<close> no
  user changes (no win, no loss, no game played, \<open>currentMatch\<close> still set), and with a
  driver that drops the key the first stored user takes all ten updates. A draw cannot be
  completed: the handler admits \<open>tie\<close>, which the schema of the match rejects, and
  refuses \<open>draw\<close>.
\<close>

theorem completeMatch_controller_alpha_win:
  "phase exampleLive = Live
   \<and> teams_alpha exampleLive = [''p0'', ''p2'', ''p3'', ''p6'', ''p8'']
   \<and> teams_beta exampleLive = [''p1'', ''p4'', ''p5'', ''p7'', ''p9'']
   \<and> map_sum id (map_prod phase (map statLine))
        (completeMatch_controller False ''alpha'' 13 7 90000 exampleLive exampleUsers)
      = Inr (Complete, map statLine exampleUsers)
   \<and> map_sum id (map_prod phase (map statLine))
        (completeMatch_controller True ''alpha'' 13 7 90000 exampleLive exampleUsers)
      = Inr (Complete, (''p0'', 5, 5, 10, 1000, Some ''MATCH-1'') # tl (map statLine exampleUsers))
   \<and> completeMatch_controller False ''tie'' 8 8 90000 exampleLive exampleUsers = Inl ValidationError
   \<and> completeMatch_controller False ''draw'' 8 8 90000 exampleLive exampleUsers
      = Inl ValidWinnerRequired"
proof -
  obtain m' where a: "completeMatch_controller False ''alpha'' 13 7 90000 exampleLive exampleUsers
      = Inr (m', exampleUsers)" and "phase m' = Complete"
    using completeMatch_controller_changes_no_user[of "''alpha''" 13 7 90000 exampleLive exampleUsers]
    by auto
  then have 1: "map_sum id (map_prod phase (map statLine))
        (completeMatch_controller False ''alpha'' 13 7 90000 exampleLive exampleUsers)
      = Inr (Complete, map statLine exampleUsers)" by simp
  have 2: "map_sum id (map_prod phase (map statLine))
        (completeMatch_controller True ''alpha'' 13 7 90000 exampleLive exampleUsers)
      = Inr (Complete, (''p0'', 5, 5, 10, 1000, Some ''MATCH-1'') # tl (map statLine exampleUsers))"
    by (simp add: completeMatch_controller_def completeMatch_def winnerEnum_def Let_def
          updateMany_entries teamsOf_def exampleLive_eval
          findOneBySteamId_def entrySteamId_def updateStats_def statLine_def
          exampleUsers_def exampleUser_def exampleIds_def del: set_map)
  have 3: "completeMatch_controller False ''tie'' 8 8 90000 exampleLive exampleUsers = Inl ValidationError"
    "completeMatch_controller False ''draw'' 8 8 90000 exampleLive exampleUsers = Inl ValidWinnerRequired"
    by (simp_all add: completeMatch_controller_def completeMatch_def winnerEnum_def Let_def)
  show ?thesis using 1 2 3 exampleLive_eval by simp
qed

end
